theory Spec2Isabelle
  imports Complex_Main "HOL-Library.Sublist"
begin

section \<open>Values and vectors\<close>

text \<open>
  The program is a browser game written in JavaScript. Its numbers are modelled as
  real numbers; \<open>NaN\<close> and the infinities are not represented. Arithmetic is exact,
  except in \<open>rotate\<close>: there the range of the result depends on how an addition is
  rounded, and the two additions round as the program's IEEE 754 doubles do.
  Counters that the program only ever initialises with an array length or zero and
  then increments are natural numbers.

  \<open>jsval\<close> is the part of the JavaScript value space that the setters of
  \<open>GameWorldObject\<close> inspect with \<open>typeof\<close> and \<open>=== null\<close>.
\<close>

datatype jsval =
    Undefined
  | Null
  | Num real
  | Str string
  | Boolean bool
  | Obj "(string \<times> jsval) list"

fun typeof :: "jsval \<Rightarrow> string" where
  "typeof Undefined = ''undefined''"
| "typeof Null = ''object''"
| "typeof (Num r) = ''number''"
| "typeof (Str s) = ''string''"
| "typeof (Boolean b) = ''boolean''"
| "typeof (Obj fs) = ''object''"

datatype js_error = TypeError

text \<open>Reading property \<open>k\<close> of a value: a missing property of an object is
  \<open>undefined\<close>; reading a property of \<open>null\<close> or \<open>undefined\<close> throws.
  Properties of primitive numbers, strings and booleans named \<open>x\<close> or \<open>y\<close> do
  not exist, so they read as \<open>undefined\<close>.\<close>

fun getProperty :: "jsval \<Rightarrow> string \<Rightarrow> js_error + jsval" where
  "getProperty Null k = Inl TypeError"
| "getProperty Undefined k = Inl TypeError"
| "getProperty (Obj fs) k = (case map_of fs k of Some v \<Rightarrow> Inr v | None \<Rightarrow> Inr Undefined)"
| "getProperty v k = Inr Undefined"

text \<open>\<open>Vector\<close>: the fields \<open>x\<close> and \<open>y\<close> of the source are called \<open>xc\<close> and
  \<open>yc\<close> here. The type of the coordinates is a parameter: the simulation keeps
  numbers in them, \<open>setPosition\<close> can store any value.\<close>

record 'a vector =
  xc :: 'a
  yc :: 'a

text \<open>\<open>new Vector(x, y)\<close> with two numbers, as at every call of the program (the
  constructor replaces an argument that is not a number by 0).\<close>

definition Vector :: "real \<Rightarrow> real \<Rightarrow> real vector" where
  "Vector a b = \<lparr>xc = a, yc = b\<rparr>"

record canvas =
  width :: real
  height :: real

text \<open>The remainder operator \<open>n % d\<close> on numbers: the quotient is truncated towards
  zero, so the result has the sign of the dividend.\<close>

definition js_rem :: "real \<Rightarrow> real \<Rightarrow> real" where
  "js_rem n d = n - d * of_int (if 0 \<le> n / d then \<lfloor>n / d\<rfloor> else \<lceil>n / d\<rceil>)"

text \<open>Rounding to the nearest integer, a tie to the even one.\<close>

definition roundEven :: "real \<Rightarrow> int" where
  "roundEven y =
     (let f = \<lfloor>y\<rfloor> in
      if y - of_int f < 1 / 2 then f
      else if 1 / 2 < y - of_int f then f + 1
      else if even f then f else f + 1)"

text \<open>The IEEE 754 binary64 number that a real number is rounded to (round to nearest,
  ties to even): 53 significant bits, the exponent not below that of the subnormal
  numbers. A magnitude of \<open>2^1024\<close> or more, which the program rounds to an infinity,
  is outside the model.\<close>

definition double :: "real \<Rightarrow> real" where
  "double x =
     (if x = 0 then 0
      else
        (let e = max \<lfloor>log 2 \<bar>x\<bar>\<rfloor> (- 1022);
             ulp = 2 powr (of_int e - 52)
         in ulp * of_int (roundEven (x / ulp))))"

section \<open>Game world objects\<close>

record ship_settings =
  acceleration :: real
  rotationSpeed :: real
  friction :: real
  fireRate :: real
  lastFired :: real
  maxVelocity :: real

text \<open>The prototype of an object together with the fields only that prototype's
  constructor sets: a ship's settings, a bullet's \<open>maxVelocity\<close>, an asteroid's
  \<open>rotation\<close>.\<close>

datatype variant =
    Ship ship_settings
  | Bullet real
  | Asteroid real

record entity =
  variant :: variant
  gameWorldIndex :: nat
  position :: "real vector"
  velocity :: "real vector"
  angle :: real
  radius :: real
  geometry :: "real vector list"
  timesWarped :: nat

definition instanceof_Asteroid :: "entity \<Rightarrow> bool" where
  "instanceof_Asteroid e = (case variant e of Asteroid r \<Rightarrow> True | _ \<Rightarrow> False)"

definition instanceof_Bullet :: "entity \<Rightarrow> bool" where
  "instanceof_Bullet e = (case variant e of Bullet m \<Rightarrow> True | _ \<Rightarrow> False)"

subsection \<open>rotate, setAngle, setPosition\<close>

text \<open>In \<open>rotate\<close> the additions \<open>this.angle += degrees\<close> and \<open>this.angle += 360\<close>
  round: each stores the double nearest to the exact sum of its operands. The
  remainder \<open>this.angle % 360\<close> of a double is a double and is exact.\<close>

definition rotate :: "jsval \<Rightarrow> entity \<Rightarrow> entity" where
  "rotate degrees this =
     (if degrees \<noteq> Null \<and> typeof degrees = ''number'' then
        (case degrees of
           Num d \<Rightarrow>
             (let a = double (angle this + d) in
              if a \<ge> 360 then this\<lparr>angle := js_rem a 360\<rparr>
              else if a < 0 then this\<lparr>angle := double (a + 360)\<rparr>
              else this\<lparr>angle := a\<rparr>)
         | _ \<Rightarrow> this)
      else this)"

definition setAngle :: "jsval \<Rightarrow> entity \<Rightarrow> entity" where
  "setAngle a this =
     (if a \<noteq> Null \<and> typeof a = ''number'' then
        (case a of Num r \<Rightarrow> this\<lparr>angle := r\<rparr> | _ \<Rightarrow> this)
      else this)"

text \<open>\<open>setPosition\<close> writes the two fields of \<open>this.position\<close> and nothing else; it
  is modelled on that object. In the branch for an object argument the values of
  \<open>x.x\<close> and \<open>x.y\<close> are stored as they are, so the coordinates are \<open>jsval\<close>s
  here. The first assignment happens before the second property is read.\<close>

definition setPosition :: "jsval \<Rightarrow> jsval \<Rightarrow> jsval vector \<Rightarrow> js_error + jsval vector" where
  "setPosition a b pos =
     (if typeof a = ''object'' \<and> (b = Undefined \<or> b = Null) then
        (case getProperty a ''x'' of
           Inl err \<Rightarrow> Inl err
         | Inr v \<Rightarrow>
             (case getProperty a ''y'' of
                Inl err \<Rightarrow> Inl err
              | Inr w \<Rightarrow> Inr (pos\<lparr>xc := v, yc := w\<rparr>)))
      else if typeof a = ''number'' \<and> typeof b = ''number'' then
        Inr (pos\<lparr>xc := a, yc := b\<rparr>)
      else Inr pos)"

subsection \<open>GameWorldObject.prototype.update\<close>

definition shiftX :: "real \<Rightarrow> real vector \<Rightarrow> real vector" where
  "shiftX d p = p\<lparr>xc := xc p + d\<rparr>"

definition shiftY :: "real \<Rightarrow> real vector \<Rightarrow> real vector" where
  "shiftY d p = p\<lparr>yc := yc p + d\<rparr>"

definition moveX :: "canvas \<Rightarrow> entity \<Rightarrow> entity" where
  "moveX cv this =
     (let e = this\<lparr>position := shiftX (xc (velocity this)) (position this)\<rparr> in
      if xc (position e) > width cv then
        e\<lparr>position := shiftX (- (width cv - 1)) (position e),
          geometry := map (shiftX (- (width cv - 1))) (geometry e),
          timesWarped := timesWarped e + 1\<rparr>
      else if xc (position e) < 0 then
        e\<lparr>position := shiftX (width cv - 1) (position e),
          geometry := map (shiftX (width cv - 1)) (geometry e),
          timesWarped := timesWarped e + 1\<rparr>
      else e)"

definition moveY :: "canvas \<Rightarrow> entity \<Rightarrow> entity" where
  "moveY cv this =
     (let e = this\<lparr>position := shiftY (yc (velocity this)) (position this)\<rparr> in
      if yc (position e) > height cv then
        e\<lparr>position := shiftY (- (height cv - 1)) (position e),
          geometry := map (shiftY (- (height cv - 1))) (geometry e),
          timesWarped := timesWarped e + 1\<rparr>
      else if yc (position e) < 0 then
        e\<lparr>position := shiftY (height cv - 1) (position e),
          geometry := map (shiftY (height cv - 1)) (geometry e),
          timesWarped := timesWarped e + 1\<rparr>
      else e)"

definition GameWorldObject_update :: "canvas \<Rightarrow> entity \<Rightarrow> entity" where
  "GameWorldObject_update cv this =
     (let e = moveY cv (moveX cv this) in
      e\<lparr>geometry := map (\<lambda>p. shiftY (yc (velocity e)) (shiftX (xc (velocity e)) p)) (geometry e)\<rparr>)"

section \<open>The game world\<close>

datatype GameState =
    TITLE_SCREEN_SCENE
  | MAIN_LEVEL_SCENE
  | WIN_LEVEL_SCENE
  | GAME_OVER_SCENE
  | CREDITS_SCENE

datatype tier = LARGE | MEDIUM | SMALL

fun AsteroidRadius :: "tier \<Rightarrow> real" where
  "AsteroidRadius LARGE = 80"
| "AsteroidRadius MEDIUM = 40"
| "AsteroidRadius SMALL = 20"

fun AsteroidMaxVelocity :: "tier \<Rightarrow> real" where
  "AsteroidMaxVelocity LARGE = 3"
| "AsteroidMaxVelocity MEDIUM = 5"
| "AsteroidMaxVelocity SMALL = 7"

fun AsteroidScore :: "tier \<Rightarrow> real" where
  "AsteroidScore LARGE = 20"
| "AsteroidScore MEDIUM = 50"
| "AsteroidScore SMALL = 100"

text \<open>
  Objects have identity: the array \<open>gameWorldObjects\<close>, the variable \<open>ship\<close> and
  the \<open>this\<close> of a running method all refer to the same mutable objects. The world
  therefore holds an object store from references (natural numbers, in order of
  creation) to object states, and the registry \<open>gameWorldObjects\<close> is a list of
  references. \<open>allocated\<close> counts the objects created so far and is the next fresh
  reference.

  \<open>Math.random()\<close> and \<open>Date.now()\<close> read the environment: each call takes the
  next value of a sequence that the world carries. \<open>keysDown\<close> is the set of key
  codes currently held, \<open>lastFrame\<close> is the variable \<open>then\<close>.
\<close>

record world =
  canvas :: canvas
  objectStore :: "nat \<Rightarrow> entity"
  allocated :: nat
  gameWorldObjects :: "nat list"
  gameState :: GameState
  score :: real
  ship :: nat
  keysDown :: "nat set"
  randomSource :: "nat \<Rightarrow> real"
  randomsDrawn :: nat
  clockSource :: "nat \<Rightarrow> real"
  clockReads :: nat
  lastFrame :: real

definition Math_random :: "world \<Rightarrow> real \<times> world" where
  "Math_random w = (randomSource w (randomsDrawn w), w\<lparr>randomsDrawn := randomsDrawn w + 1\<rparr>)"

definition Date_now :: "world \<Rightarrow> real \<times> world" where
  "Date_now w = (clockSource w (clockReads w), w\<lparr>clockReads := clockReads w + 1\<rparr>)"

text \<open>\<open>new\<close> creates an object; \<open>push\<close> appends a reference to the registry.\<close>

definition allocate :: "entity \<Rightarrow> world \<Rightarrow> nat \<times> world" where
  "allocate e w =
     (allocated w,
      w\<lparr>objectStore := (objectStore w)(allocated w := e), allocated := allocated w + 1\<rparr>)"

definition push :: "nat \<Rightarrow> world \<Rightarrow> world" where
  "push r w = w\<lparr>gameWorldObjects := gameWorldObjects w @ [r]\<rparr>"

definition setGameState :: "GameState \<Rightarrow> world \<Rightarrow> world" where
  "setGameState st w = w\<lparr>gameState := st\<rparr>"

text \<open>\<open>addToScore\<close> is only called with the numbers of \<open>AsteroidScore\<close>, so its
  test \<open>typeof points === 'number'\<close> holds.\<close>

definition addToScore :: "real \<Rightarrow> world \<Rightarrow> world" where
  "addToScore points w = w\<lparr>score := score w + points\<rparr>"

subsection \<open>Constructors\<close>

text \<open>The constructor of the base class. Its arguments are a vector, a vector and
  two numbers at every call of the program, so \<open>position || new Vector()\<close>,
  \<open>velocity || new Vector()\<close> and \<open>angle !== null ? angle : 90\<close> keep the argument;
  \<open>radius || 15\<close> replaces a zero radius.\<close>

definition GameWorldObject_new ::
    "variant \<Rightarrow> real vector \<Rightarrow> real vector \<Rightarrow> real \<Rightarrow> real \<Rightarrow> world \<Rightarrow> entity" where
  "GameWorldObject_new var pos vel ang rad w =
     \<lparr>variant = var,
      gameWorldIndex = length (gameWorldObjects w),
      position = pos,
      velocity = vel,
      angle = ang,
      radius = (if rad = 0 then 15 else rad),
      geometry = [],
      timesWarped = 0\<rparr>"

definition Ship_new ::
    "real vector \<Rightarrow> real vector \<Rightarrow> real \<Rightarrow> real \<Rightarrow> world \<Rightarrow> entity \<times> world" where
  "Ship_new pos vel ang rad w =
     (let (now, w1) = Date_now w;
          settings = \<lparr>acceleration = 0.4, rotationSpeed = 5, friction = 0.008,
                      fireRate = 0.2, lastFired = now - 0.2 * 1000, maxVelocity = 10\<rparr>;
          this = GameWorldObject_new (Ship settings) pos vel ang rad w
      in (this\<lparr>geometry :=
            [Vector (xc (position this) + radius this) (yc (position this)),
             Vector (xc (position this) - radius this) (yc (position this) + (radius this * 3) / 4),
             Vector (xc (position this) - radius this / 2) (yc (position this)),
             Vector (xc (position this) - radius this) (yc (position this) - (radius this * 3) / 4)]\<rparr>,
          w1))"

definition Bullet_new :: "real vector \<Rightarrow> real \<Rightarrow> world \<Rightarrow> entity" where
  "Bullet_new pos ang w =
     (let maxVel = 11;
          vel = Vector (cos ((- pi * ang) / 180) * maxVel) (sin ((- pi * ang) / 180) * maxVel);
          this = GameWorldObject_new (Bullet maxVel) pos vel ang 3 w
      in this\<lparr>geometry := [Vector (xc (position this)) (yc (position this))]\<rparr>)"

definition granularity :: nat where
  "granularity = 20"

text \<open>The loop \<open>for (ang = 0; ang < 2 * Math.PI; ang += (2 * Math.PI) / granularity)\<close>
  of the asteroid constructor: in exact arithmetic it runs \<open>granularity\<close> times. The
  first argument counts the iterations that remain.\<close>

fun createGeometry :: "nat \<Rightarrow> real \<Rightarrow> real \<Rightarrow> real \<Rightarrow> entity \<times> world \<Rightarrow> entity \<times> world" where
  "createGeometry 0 ang minRadius maxRadius (this, w) = (this, w)"
| "createGeometry (Suc n) ang minRadius maxRadius (this, w) =
     (let (angleVaryPc, w1) = Math_random w;
          angleVaryRadians = (((2 * pi) / real granularity) * angleVaryPc) / 100;
          angleFinal = ang + angleVaryRadians - pi / real granularity;
          (rnd, w2) = Math_random w1;
          this1 = this\<lparr>radius := of_int \<lfloor>rnd * (maxRadius - minRadius)\<rfloor> + minRadius\<rparr>;
          x = sin angleFinal * radius this1;
          y = - cos angleFinal * radius this1;
          this2 = this1\<lparr>geometry := geometry this1 @
                    [Vector (xc (position this1) + x) (yc (position this1) + y)]\<rparr>
      in createGeometry n (ang + (2 * pi) / real granularity) minRadius maxRadius (this2, w2))"

definition Asteroid_new ::
    "real vector \<Rightarrow> real vector \<Rightarrow> real \<Rightarrow> real \<Rightarrow> world \<Rightarrow> entity \<times> world" where
  "Asteroid_new pos vel ang rad w =
     (let (rnd, w1) = Math_random w;
          this = GameWorldObject_new (Asteroid (rnd * 8 - 4)) pos vel ang rad w;
          minRadius = (radius this * 3) / 4;
          maxRadius = rad
      in createGeometry granularity 0 minRadius maxRadius (this, w1))"

subsection \<open>destroy\<close>

text \<open>\<open>splice(index, 1)\<close> for a non-negative index: an index at or beyond the end
  removes nothing.\<close>

definition splice1 :: "nat \<Rightarrow> 'a list \<Rightarrow> 'a list" where
  "splice1 idx xs = take idx xs @ drop (Suc idx) xs"

definition decrementIndex :: "nat \<Rightarrow> (nat \<Rightarrow> entity) \<Rightarrow> (nat \<Rightarrow> entity)" where
  "decrementIndex r store = store(r := (store r)\<lparr>gameWorldIndex := gameWorldIndex (store r) - 1\<rparr>)"

text \<open>The index stored in an object is a natural number here. The program
  decrements it only for objects at or behind the removed position, whose stored
  index is positive in every world it builds.\<close>

definition destroy :: "nat \<Rightarrow> world \<Rightarrow> world" where
  "destroy this w =
     (let idx = gameWorldIndex (objectStore w this);
          objs = splice1 idx (gameWorldObjects w)
      in w\<lparr>gameWorldObjects := objs,
           objectStore := fold decrementIndex (drop idx objs) (objectStore w)\<rparr>)"

subsection \<open>Asteroid\<close>

definition Asteroid_update :: "nat \<Rightarrow> world \<Rightarrow> world" where
  "Asteroid_update this w =
     (let e = GameWorldObject_update (canvas w) (objectStore w this);
          rot = (case variant e of Asteroid r \<Rightarrow> Num r | _ \<Rightarrow> Undefined)
      in w\<lparr>objectStore := (objectStore w)(this := rotate rot e)\<rparr>)"

text \<open>One iteration of either spawning loop of \<open>explode\<close>.\<close>

definition spawnChild :: "tier \<Rightarrow> nat \<Rightarrow> world \<Rightarrow> world" where
  "spawnChild t this w =
     (let (r1, w1) = Math_random w;
          vx = r1 * AsteroidMaxVelocity t - AsteroidMaxVelocity t / 2;
          (r2, w2) = Math_random w1;
          vy = r2 * AsteroidMaxVelocity t - AsteroidMaxVelocity t / 2;
          p = position (objectStore w2 this);
          (child, w3) = Asteroid_new (Vector (xc p) (yc p)) (Vector vx vy) 0 (AsteroidRadius t) w2;
          (ref, w4) = allocate child w3
      in push ref w4)"

definition explode :: "nat \<Rightarrow> world \<Rightarrow> world" where
  "explode this w =
     (let w1 =
        (if radius (objectStore w this) \<ge> AsteroidRadius MEDIUM then
           spawnChild MEDIUM this (spawnChild MEDIUM this (spawnChild MEDIUM this w))
         else if radius (objectStore w this) \<ge> AsteroidRadius SMALL then
           spawnChild SMALL this (spawnChild SMALL this (spawnChild SMALL this w))
         else w)
      in destroy this w1)"

subsection \<open>Collision scan\<close>

definition distanceApart :: "entity \<Rightarrow> entity \<Rightarrow> real" where
  "distanceApart this asteroid =
     sqrt ((xc (position this) - xc (position asteroid))\<^sup>2 +
           (yc (position this) - yc (position asteroid))\<^sup>2)"

definition collides :: "entity \<Rightarrow> entity \<Rightarrow> bool" where
  "collides this asteroid =
     (distanceApart this asteroid < radius this * 0.9 + radius asteroid * 0.9)"

text \<open>The scans of the registry in \<open>Ship.prototype.update\<close> and
  \<open>Bullet.prototype.update\<close> leave at the first asteroid that collides, and change
  nothing before that: the scan returns that asteroid, if there is one.\<close>

fun firstCollision :: "(nat \<Rightarrow> entity) \<Rightarrow> entity \<Rightarrow> nat list \<Rightarrow> nat option" where
  "firstCollision store this [] = None"
| "firstCollision store this (r # rs) =
     (if instanceof_Asteroid (store r) \<and> collides this (store r) then Some r
      else firstCollision store this rs)"

subsection \<open>Ship\<close>

text \<open>\<open>accelerate\<close> is only called without an argument, so the angle is the ship's
  own. The sounds that \<open>handleUserInput\<close> and \<open>fire\<close> start and stop are outside the
  model. In \<open>fire\<close>, \<open>this.lastFired &&\<close> fails for 0, and then the clock is not
  read.\<close>

definition Ship_accelerate :: "nat \<Rightarrow> world \<Rightarrow> world" where
  "Ship_accelerate this w =
     (let e = objectStore w this;
          ang = angle e
      in case variant e of
           Ship s \<Rightarrow>
             if sqrt ((xc (velocity e))\<^sup>2 + (yc (velocity e))\<^sup>2) < maxVelocity s then
               w\<lparr>objectStore := (objectStore w)(this := e\<lparr>velocity :=
                    Vector (xc (velocity e) + cos (2 * pi * (ang / 360)) * acceleration s)
                           (yc (velocity e) - sin (2 * pi * (ang / 360)) * acceleration s)\<rparr>)\<rparr>
             else w
         | _ \<Rightarrow> w)"

definition Ship_fire :: "nat \<Rightarrow> world \<Rightarrow> world" where
  "Ship_fire this w =
     (let e = objectStore w this in
      case variant e of
        Ship s \<Rightarrow>
          if lastFired s = 0 then w
          else
            (let (now, w1) = Date_now w in
             if now - lastFired s > fireRate s * 1000 then
               (let bullet = Bullet_new (Vector (xc (position e)) (yc (position e))) (angle e) w1;
                    (ref, w2) = allocate bullet w1;
                    w3 = push ref w2;
                    (now2, w4) = Date_now w3
                in w4\<lparr>objectStore := (objectStore w4)
                        (this := (objectStore w4 this)\<lparr>variant := Ship (s\<lparr>lastFired := now2\<rparr>)\<rparr>)\<rparr>)
             else w1)
      | _ \<Rightarrow> w)"

definition Ship_update :: "nat \<Rightarrow> world \<Rightarrow> world" where
  "Ship_update this w =
     (let e = GameWorldObject_update (canvas w) (objectStore w this);
          fr = (case variant e of Ship s \<Rightarrow> friction s | _ \<Rightarrow> 0);
          e1 = e\<lparr>velocity := Vector (xc (velocity e) - xc (velocity e) * fr)
                                     (yc (velocity e) - yc (velocity e) * fr)\<rparr>;
          w1 = w\<lparr>objectStore := (objectStore w)(this := e1)\<rparr>
      in case firstCollision (objectStore w1) e1 (gameWorldObjects w1) of
           Some asteroid \<Rightarrow> setGameState GAME_OVER_SCENE w1
         | None \<Rightarrow> w1)"

subsection \<open>Bullet\<close>

text \<open>The points for a hit, read from the asteroid's radius.\<close>

definition hitPoints :: "entity \<Rightarrow> real" where
  "hitPoints asteroid =
     (if radius asteroid > AsteroidRadius MEDIUM then AsteroidScore LARGE
      else if radius asteroid > AsteroidRadius SMALL then AsteroidScore MEDIUM
      else AsteroidScore SMALL)"

definition Bullet_update :: "nat \<Rightarrow> world \<Rightarrow> world" where
  "Bullet_update this w =
     (let e = GameWorldObject_update (canvas w) (objectStore w this);
          w1 = w\<lparr>objectStore := (objectStore w)(this := e)\<rparr>;
          w2 = (case firstCollision (objectStore w1) e (gameWorldObjects w1) of
                  Some asteroid \<Rightarrow>
                    (let w3 = explode asteroid w1;
                         w4 = addToScore (hitPoints (objectStore w3 asteroid)) w3
                     in destroy this w4)
                | None \<Rightarrow> w1)
      in if timesWarped (objectStore w2 this) \<ge> 1 then destroy this w2 else w2)"

subsection \<open>One tick\<close>

definition handleUserInput :: "real \<Rightarrow> world \<Rightarrow> world" where
  "handleUserInput timeRegulationModifier w =
     (let rs = (case variant (objectStore w (ship w)) of Ship s \<Rightarrow> rotationSpeed s | _ \<Rightarrow> 0);
          w1 = (if 37 \<in> keysDown w then
                  w\<lparr>objectStore := (objectStore w)(ship w :=
                       rotate (Num (rs * timeRegulationModifier * 100)) (objectStore w (ship w)))\<rparr>
                else if 39 \<in> keysDown w then
                  w\<lparr>objectStore := (objectStore w)(ship w :=
                       rotate (Num (- rs * timeRegulationModifier * 100)) (objectStore w (ship w)))\<rparr>
                else w);
          w2 = (if 38 \<in> keysDown w1 then Ship_accelerate (ship w1) w1 else w1)
      in if 32 \<in> keysDown w2 then Ship_fire (ship w2) w2 else w2)"

text \<open>Method dispatch of \<open>gameWorldObjects[i].update()\<close> on the prototype.\<close>

definition update :: "nat \<Rightarrow> world \<Rightarrow> world" where
  "update this w =
     (case variant (objectStore w this) of
        Ship s \<Rightarrow> Ship_update this w
      | Bullet m \<Rightarrow> Bullet_update this w
      | Asteroid r \<Rightarrow> Asteroid_update this w)"

definition isWinConditionMet :: "world \<Rightarrow> bool" where
  "isWinConditionMet w =
     list_all (\<lambda>r. \<not> instanceof_Asteroid (objectStore w r)) (gameWorldObjects w)"

subsection \<open>Level setup\<close>

text \<open>The statements of \<open>initializeGameWorldObjects\<close> that create the ship and
  push it to the registry.\<close>

definition createShip :: "world \<Rightarrow> world" where
  "createShip w =
     (let (s, w1) = Ship_new (Vector (width (canvas w) / 2) (height (canvas w) / 2))
                      (Vector 0 0) 90 20 w;
          (ref, w2) = allocate s w1
      in push ref (w2\<lparr>ship := ref\<rparr>))"

section \<open>The update loop of a tick\<close>

subsection \<open>How an operation can change the registry\<close>

text \<open>
  The loop of \<open>updateGameWorld\<close> reads \<open>gameWorldObjects.length\<close> again on every
  iteration while the objects it updates remove elements and append new ones. That it
  ends is shown from what every operation can do to the registry: from any position
  on, the registry afterwards is a subsequence of the registry before followed by the
  objects created meanwhile, and no object becomes a bullet.
\<close>

definition registryStep :: "world \<Rightarrow> world \<Rightarrow> bool" where
  "registryStep w w' =
     (allocated w \<le> allocated w' \<and>
      (\<forall>j. subseq (drop j (gameWorldObjects w'))
                   (drop j (gameWorldObjects w) @ [allocated w ..< allocated w'])) \<and>
      (\<forall>r. instanceof_Bullet (objectStore w' r) \<longrightarrow>
             instanceof_Bullet (objectStore w r) \<and> \<not> (allocated w \<le> r \<and> r < allocated w')))"

lemma subseq_drop_Suc: "subseq (drop (Suc j) xs) (drop j xs)"
proof -
  have "drop (Suc j) xs = drop 1 (drop j xs)" by simp
  then show ?thesis
    using suffix_drop suffix_imp_subseq by metis
qed

lemma subseq_drop_splice1: "subseq (drop j (splice1 k xs)) (drop j xs)"
proof (cases "k < j")
  case True
  show ?thesis
  proof (cases "k < length xs")
    case True
    with \<open>k < j\<close> have "drop j (splice1 k xs) = drop (Suc j) xs"
      by (simp add: splice1_def min_absorb2)
    then show ?thesis by (simp add: subseq_drop_Suc)
  next
    case False
    then show ?thesis by (simp add: splice1_def)
  qed
next
  case False
  then have jk: "j \<le> k" by simp
  have a: "drop j (splice1 k xs) = drop j (take k xs) @ drop (Suc k) xs"
  proof (cases "k \<le> length xs")
    case True
    then show ?thesis using jk by (simp add: splice1_def min_absorb2)
  next
    case False
    then show ?thesis by (simp add: splice1_def)
  qed
  have "drop j (take k xs @ drop k xs) = drop j (take k xs) @ drop (j - length (take k xs)) (drop k xs)"
    by (rule drop_append)
  moreover have "drop (j - length (take k xs)) (drop k xs) = drop k xs"
  proof (cases "k \<le> length xs")
    case True
    then show ?thesis using jk by (simp add: min_absorb2)
  next
    case False
    then show ?thesis by simp
  qed
  ultimately have b: "drop j xs = drop j (take k xs) @ drop k xs"
    by simp
  show ?thesis
    unfolding a
    by (subst b) (simp add: subseq_append' subseq_drop_Suc)
qed

lemma variant_fold_decrementIndex [simp]:
  "variant (fold decrementIndex rs store r) = variant (store r)"
  by (induction rs arbitrary: store) (simp_all add: decrementIndex_def)

lemma registryStep_refl [simp]: "registryStep w w"
  by (simp add: registryStep_def)

lemma registryStep_trans:
  assumes "registryStep w1 w2" and "registryStep w2 w3"
  shows "registryStep w1 w3"
proof -
  from assms have le: "allocated w1 \<le> allocated w2" "allocated w2 \<le> allocated w3"
    by (simp_all add: registryStep_def)
  have upt: "[allocated w1 ..< allocated w3] = [allocated w1 ..< allocated w2] @ [allocated w2 ..< allocated w3]"
    using le by (metis le_Suc_ex upt_add_eq_append)
  have "subseq (drop j (gameWorldObjects w3)) (drop j (gameWorldObjects w1) @ [allocated w1 ..< allocated w3])" for j
  proof -
    have "subseq (drop j (gameWorldObjects w3)) (drop j (gameWorldObjects w2) @ [allocated w2 ..< allocated w3])"
      using assms(2) by (simp add: registryStep_def)
    moreover have "subseq (drop j (gameWorldObjects w2) @ [allocated w2 ..< allocated w3])
        ((drop j (gameWorldObjects w1) @ [allocated w1 ..< allocated w2]) @ [allocated w2 ..< allocated w3])"
      using assms(1) by (intro list_emb_append_mono) (simp_all add: registryStep_def)
    ultimately show ?thesis
      unfolding upt by (metis subseq_order.order_trans append_assoc)
  qed
  moreover have "instanceof_Bullet (objectStore w3 r) \<longrightarrow>
             instanceof_Bullet (objectStore w1 r) \<and> \<not> (allocated w1 \<le> r \<and> r < allocated w3)" for r
    using assms le unfolding registryStep_def by (metis leD leI le_trans less_le_trans)
  ultimately show ?thesis
    using le by (simp add: registryStep_def)
qed

lemma registryStep_fields:
  assumes "allocated w' = allocated w''" "gameWorldObjects w' = gameWorldObjects w''"
    "objectStore w' = objectStore w''"
  shows "registryStep w w' = registryStep w w''"
  using assms by (simp add: registryStep_def)

lemma registryStep_store:
  assumes "instanceof_Bullet e \<longrightarrow> instanceof_Bullet (objectStore w r)"
  shows "registryStep w (w\<lparr>objectStore := (objectStore w)(r := e)\<rparr>)"
  using assms by (simp add: registryStep_def)

lemma registryStep_destroy: "registryStep w (destroy this w)"
  by (simp add: registryStep_def destroy_def Let_def subseq_drop_splice1 instanceof_Bullet_def)

lemma createGeometry_world:
  "snd (createGeometry n ang mn mx (e, w)) = w\<lparr>randomsDrawn := randomsDrawn w + 2 * n\<rparr>"
  by (induction n arbitrary: ang e w) (simp_all add: Math_random_def Let_def)

lemma createGeometry_frame:
  "variant (fst (createGeometry n ang mn mx (e, w))) = variant e"
  "gameWorldIndex (fst (createGeometry n ang mn mx (e, w))) = gameWorldIndex e"
  "position (fst (createGeometry n ang mn mx (e, w))) = position e"
  "velocity (fst (createGeometry n ang mn mx (e, w))) = velocity e"
  "angle (fst (createGeometry n ang mn mx (e, w))) = angle e"
  "timesWarped (fst (createGeometry n ang mn mx (e, w))) = timesWarped e"
  by (induction n arbitrary: ang e w; simp add: Math_random_def Let_def)+

lemma Asteroid_new_world:
  "snd (Asteroid_new pos vel ang rad w) = w\<lparr>randomsDrawn := randomsDrawn w + 1 + 2 * granularity\<rparr>"
  by (simp add: Asteroid_new_def Math_random_def Let_def createGeometry_world)

lemma Asteroid_new_frame:
  "variant (fst (Asteroid_new pos vel ang rad w)) = Asteroid (randomSource w (randomsDrawn w) * 8 - 4)"
  "gameWorldIndex (fst (Asteroid_new pos vel ang rad w)) = length (gameWorldObjects w)"
  "position (fst (Asteroid_new pos vel ang rad w)) = pos"
  "velocity (fst (Asteroid_new pos vel ang rad w)) = vel"
  "angle (fst (Asteroid_new pos vel ang rad w)) = ang"
  "timesWarped (fst (Asteroid_new pos vel ang rad w)) = 0"
  by (simp_all add: Asteroid_new_def Math_random_def Let_def createGeometry_frame GameWorldObject_new_def)

lemma spawnChild_eq:
  "spawnChild t this w =
     (let w2 = w\<lparr>randomsDrawn := randomsDrawn w + 2\<rparr>;
          p = position (objectStore w this);
          child = fst (Asteroid_new (Vector (xc p) (yc p))
                    (Vector (randomSource w (randomsDrawn w) * AsteroidMaxVelocity t - AsteroidMaxVelocity t / 2)
                            (randomSource w (randomsDrawn w + 1) * AsteroidMaxVelocity t - AsteroidMaxVelocity t / 2))
                    0 (AsteroidRadius t) w2)
      in w\<lparr>randomsDrawn := randomsDrawn w + 3 + 2 * granularity,
           objectStore := (objectStore w)(allocated w := child),
           allocated := allocated w + 1,
           gameWorldObjects := gameWorldObjects w @ [allocated w]\<rparr>)"
  by (simp add: spawnChild_def Math_random_def Let_def split_beta Asteroid_new_world allocate_def push_def)

lemma subseq_drop_self: "subseq (drop n xs) xs"
  by (simp add: suffix_drop suffix_imp_subseq)

lemma registryStep_spawnChild: "registryStep w (spawnChild t this w)"
  by (simp add: spawnChild_eq Let_def registryStep_def Asteroid_new_frame subseq_append' subseq_drop_self
        instanceof_Bullet_def)

lemma registryStep_spawn3:
  "registryStep w (spawnChild t this (spawnChild t this (spawnChild t this w)))"
  by (meson registryStep_trans registryStep_spawnChild)

lemma registryStep_explode: "registryStep w (explode this w)"
  unfolding explode_def Let_def
  by (rule registryStep_trans [OF _ registryStep_destroy])
     (simp add: registryStep_spawn3 del: AsteroidRadius.simps)

lemma registryStep_addToScore: "registryStep w w' \<Longrightarrow> registryStep w (addToScore p w')"
  by (simp add: registryStep_def addToScore_def)

lemma registryStep_setGameState: "registryStep w w' \<Longrightarrow> registryStep w (setGameState st w')"
  by (simp add: registryStep_def setGameState_def)

lemma variant_GameWorldObject_update [simp]:
  "variant (GameWorldObject_update cv e) = variant e"
  by (simp add: GameWorldObject_update_def moveX_def moveY_def Let_def)

lemma variant_rotate [simp]: "variant (rotate d e) = variant e"
  by (cases d) (simp_all add: rotate_def Let_def)

lemma rotate_frame [simp]:
  "gameWorldIndex (rotate d e) = gameWorldIndex e"
  "position (rotate d e) = position e"
  "velocity (rotate d e) = velocity e"
  "radius (rotate d e) = radius e"
  "geometry (rotate d e) = geometry e"
  "timesWarped (rotate d e) = timesWarped e"
  by (cases d; simp add: rotate_def Let_def)+

lemma registryStep_Bullet_update: "registryStep w (Bullet_update this w)"
proof -
  define e where "e = GameWorldObject_update (canvas w) (objectStore w this)"
  define w1 where "w1 = w\<lparr>objectStore := (objectStore w)(this := e)\<rparr>"
  define w2 where "w2 = (case firstCollision (objectStore w1) e (gameWorldObjects w1) of
      Some asteroid \<Rightarrow>
        destroy this (addToScore (hitPoints (objectStore (explode asteroid w1) asteroid))
          (explode asteroid w1))
    | None \<Rightarrow> w1)"
  have s1: "registryStep w w1"
    unfolding w1_def e_def by (rule registryStep_store) (simp add: instanceof_Bullet_def)
  have s2: "registryStep w1 w2"
  proof (cases "firstCollision (objectStore w1) e (gameWorldObjects w1)")
    case None
    then show ?thesis by (simp add: w2_def)
  next
    case (Some asteroid)
    have "registryStep w1 (destroy this
        (addToScore (hitPoints (objectStore (explode asteroid w1) asteroid)) (explode asteroid w1)))"
      by (rule registryStep_trans [OF _ registryStep_destroy])
         (rule registryStep_addToScore, rule registryStep_explode)
    with Some show ?thesis by (simp add: w2_def)
  qed
  have s3: "registryStep w2 (if timesWarped (objectStore w2 this) \<ge> 1 then destroy this w2 else w2)"
    by (simp add: registryStep_destroy)
  have eq: "Bullet_update this w =
      (if timesWarped (objectStore w2 this) \<ge> 1 then destroy this w2 else w2)"
    unfolding Bullet_update_def Let_def w2_def w1_def e_def by (rule refl)
  show ?thesis
    unfolding eq by (rule registryStep_trans [OF s1 registryStep_trans [OF s2 s3]])
qed

lemma Ship_update_registry [simp]:
  "gameWorldObjects (Ship_update this w) = gameWorldObjects w"
  "allocated (Ship_update this w) = allocated w"
  "variant (objectStore (Ship_update this w) r) = variant (objectStore w r)"
  by (simp_all add: Ship_update_def Let_def setGameState_def split: option.split)

lemma Asteroid_update_registry [simp]:
  "gameWorldObjects (Asteroid_update this w) = gameWorldObjects w"
  "allocated (Asteroid_update this w) = allocated w"
  "variant (objectStore (Asteroid_update this w) r) = variant (objectStore w r)"
  by (simp_all add: Asteroid_update_def Let_def)

lemma instanceof_Bullet_variant:
  "variant e = variant e' \<Longrightarrow> instanceof_Bullet e = instanceof_Bullet e'"
  by (simp add: instanceof_Bullet_def)

lemma registryStep_update: "registryStep w (update this w)"
proof (cases "variant (objectStore w this)")
  case (Ship s)
  then show ?thesis
    by (simp add: update_def registryStep_def
          instanceof_Bullet_variant [OF Ship_update_registry(3)])
next
  case (Bullet m)
  then show ?thesis
    by (simp add: update_def registryStep_Bullet_update)
next
  case (Asteroid r)
  then show ?thesis
    by (simp add: update_def registryStep_def
          instanceof_Bullet_variant [OF Asteroid_update_registry(3)])
qed

definition bulletsFrom :: "nat \<Rightarrow> world \<Rightarrow> nat" where
  "bulletsFrom i w =
     length (filter (\<lambda>r. instanceof_Bullet (objectStore w r)) (drop i (gameWorldObjects w)))"

lemma length_filter_subseq:
  "subseq xs ys \<Longrightarrow> length (filter P xs) \<le> length (filter P ys)"
  by (metis subseq_filter list_emb_length)

lemma length_filter_mono:
  "(\<And>x. P x \<Longrightarrow> Q x) \<Longrightarrow> length (filter P xs) \<le> length (filter Q xs)"
  by (induction xs) auto

lemma bulletsFrom_step:
  assumes "registryStep w w'"
  shows "bulletsFrom j w' \<le> bulletsFrom j w"
proof -
  let ?P' = "\<lambda>r. instanceof_Bullet (objectStore w' r)"
  let ?P = "\<lambda>r. instanceof_Bullet (objectStore w r)"
  have "length (filter ?P' (drop j (gameWorldObjects w')))
      \<le> length (filter ?P' (drop j (gameWorldObjects w) @ [allocated w ..< allocated w']))"
    using assms by (intro length_filter_subseq) (simp add: registryStep_def)
  also have "filter ?P' [allocated w ..< allocated w'] = []"
    using assms by (auto simp add: registryStep_def filter_empty_conv)
  then have "length (filter ?P' (drop j (gameWorldObjects w) @ [allocated w ..< allocated w']))
      = length (filter ?P' (drop j (gameWorldObjects w)))"
    by simp
  also have "\<dots> \<le> length (filter ?P (drop j (gameWorldObjects w)))"
    using assms by (intro length_filter_mono) (simp add: registryStep_def)
  finally show ?thesis by (simp add: bulletsFrom_def)
qed

lemma bulletsFrom_Suc:
  assumes "i < length (gameWorldObjects w)"
  shows "bulletsFrom i w =
     (if instanceof_Bullet (objectStore w (gameWorldObjects w ! i)) then 1 else 0) + bulletsFrom (Suc i) w"
  using assms by (simp add: bulletsFrom_def Cons_nth_drop_Suc [symmetric])

subsection \<open>updateGameWorld\<close>

text \<open>The loop \<open>for (i = 0; i < gameWorldObjects.length; i++) gameWorldObjects[i].update()\<close>.
  Besides the world it returns the references of the objects whose \<open>update\<close> ran,
  in order (a log that the program does not keep). It ends because every update of a
  bullet leaves fewer bullets behind the loop index, and every other update leaves
  the registry as it is.\<close>

function updateLoop :: "nat \<Rightarrow> nat list \<Rightarrow> world \<Rightarrow> nat list \<times> world" where
  "updateLoop i visited w =
     (if i < length (gameWorldObjects w) then
        updateLoop (i + 1) (visited @ [gameWorldObjects w ! i]) (update (gameWorldObjects w ! i) w)
      else (visited, w))"
  by pat_completeness auto

termination
proof (relation "measures [\<lambda>(i, visited, w). bulletsFrom i w,
                           \<lambda>(i, visited, w). length (gameWorldObjects w) - i]")
  show "wf (measures [\<lambda>(i, visited, w). bulletsFrom i w,
                           \<lambda>(i, visited, w). length (gameWorldObjects w) - i])"
    by simp
next
  fix i :: nat and visited :: "nat list" and w :: world
  assume lt: "i < length (gameWorldObjects w)"
  let ?r = "gameWorldObjects w ! i"
  let ?w' = "update ?r w"
  have le: "bulletsFrom (i + 1) ?w' \<le> bulletsFrom (Suc i) w"
    using bulletsFrom_step [OF registryStep_update] by simp
  show "((i + 1, visited @ [?r], ?w'), (i, visited, w))
      \<in> measures [\<lambda>(i, visited, w). bulletsFrom i w,
                           \<lambda>(i, visited, w). length (gameWorldObjects w) - i]"
  proof (cases "instanceof_Bullet (objectStore w ?r)")
    case True
    then have "bulletsFrom i w = 1 + bulletsFrom (Suc i) w"
      using bulletsFrom_Suc [OF lt] by simp
    with le show ?thesis by simp
  next
    case False
    then have "gameWorldObjects ?w' = gameWorldObjects w"
      by (auto simp add: update_def instanceof_Bullet_def split: variant.split)
    moreover have "bulletsFrom i w = bulletsFrom (Suc i) w"
      using bulletsFrom_Suc [OF lt] False by simp
    ultimately show ?thesis
      using le lt by auto
  qed
qed

declare updateLoop.simps [simp del]

definition updateGameWorld :: "real \<Rightarrow> world \<Rightarrow> world" where
  "updateGameWorld timeRegulationModifier w =
     (let w1 = handleUserInput timeRegulationModifier w;
          w2 = snd (updateLoop 0 [] w1)
      in if isWinConditionMet w2 then setGameState WIN_LEVEL_SCENE w2 else w2)"

text \<open>One frame of \<open>playMainLevelScene\<close>; rendering and the overlays change nothing
  in the world, and \<open>requestAnimationFrame\<close> asks the host for the next frame.\<close>

definition playMainLevelScene :: "world \<Rightarrow> world" where
  "playMainLevelScene w =
     (if gameState w = MAIN_LEVEL_SCENE then
        (let (now, w1) = Date_now w;
             delta = now - lastFrame w1;
             w2 = updateGameWorld (delta / 1000) w1
         in w2\<lparr>lastFrame := now\<rparr>)
      else w)"

section \<open>Predicates of the specification and example worlds\<close>

definition crossedX :: "canvas \<Rightarrow> entity \<Rightarrow> bool" where
  "crossedX cv e =
     (xc (position e) + xc (velocity e) > width cv \<or> xc (position e) + xc (velocity e) < 0)"

definition crossedY :: "canvas \<Rightarrow> entity \<Rightarrow> bool" where
  "crossedY cv e =
     (yc (position e) + yc (velocity e) > height cv \<or> yc (position e) + yc (velocity e) < 0)"

definition axesCrossed :: "canvas \<Rightarrow> entity \<Rightarrow> nat" where
  "axesCrossed cv e = (if crossedX cv e then 1 else 0) + (if crossedY cv e then 1 else 0)"

definition speed :: "real vector \<Rightarrow> real" where
  "speed v = sqrt ((xc v)\<^sup>2 + (yc v)\<^sup>2)"

definition exampleCanvas :: canvas where
  "exampleCanvas = \<lparr>width = 800, height = 600\<rparr>"

definition squareCanvas :: canvas where
  "squareCanvas = \<lparr>width = 800, height = 800\<rparr>"

definition exampleBullet :: "nat \<Rightarrow> real vector \<Rightarrow> real vector \<Rightarrow> entity" where
  "exampleBullet idx p v =
     \<lparr>variant = Bullet 11, gameWorldIndex = idx, position = p, velocity = v, angle = 0,
      radius = 3, geometry = [p], timesWarped = 0\<rparr>"

definition exampleAsteroid :: "nat \<Rightarrow> real \<Rightarrow> real vector \<Rightarrow> real vector \<Rightarrow> entity" where
  "exampleAsteroid idx rad p v =
     \<lparr>variant = Asteroid 1, gameWorldIndex = idx, position = p, velocity = v, angle = 0,
      radius = rad, geometry = [], timesWarped = 0\<rparr>"

text \<open>Every object of the registry stores its own position in the registry.\<close>

definition indexInvariant :: "world \<Rightarrow> bool" where
  "indexInvariant w =
     list_all (\<lambda>i. gameWorldIndex (objectStore w (gameWorldObjects w ! i)) = i)
       [0 ..< length (gameWorldObjects w)]"

text \<open>Every reference of the registry refers to an object that has been created.\<close>

definition registryAllocated :: "world \<Rightarrow> bool" where
  "registryAllocated w = list_all (\<lambda>r. r < allocated w) (gameWorldObjects w)"

definition wellFormed :: "world \<Rightarrow> bool" where
  "wellFormed w = (indexInvariant w \<and> registryAllocated w)"

definition exampleShip :: "nat \<Rightarrow> real vector \<Rightarrow> entity" where
  "exampleShip idx p =
     \<lparr>variant = Ship \<lparr>acceleration = 0.4, rotationSpeed = 5, friction = 0.008,
                       fireRate = 0.2, lastFired = 1, maxVelocity = 10\<rparr>,
      gameWorldIndex = idx, position = p, velocity = Vector 0 0, angle = 90,
      radius = 20, geometry = [], timesWarped = 0\<rparr>"

text \<open>A world in the playing state whose registry holds the given objects in order;
  object \<open>k\<close> of the list has reference \<open>k\<close>. No key is held, every random number
  is \<open>1/2\<close>.\<close>

definition exampleWorld :: "entity list \<Rightarrow> world" where
  "exampleWorld es =
     \<lparr>canvas = exampleCanvas,
      objectStore = (\<lambda>r. if r < length es then es ! r else exampleBullet 0 (Vector 0 0) (Vector 0 0)),
      allocated = length es,
      gameWorldObjects = [0 ..< length es],
      gameState = MAIN_LEVEL_SCENE,
      score = 0,
      ship = 0,
      keysDown = {},
      randomSource = (\<lambda>n. 1 / 2),
      randomsDrawn = 0,
      clockSource = (\<lambda>n. 1000),
      clockReads = 0,
      lastFrame = 984\<rparr>"

text \<open>A ship, a small asteroid next to the left edge, a bullet about to leave through
  the right edge at the same height, and a large asteroid far away.\<close>

definition wrapAndHitWorld :: world where
  "wrapAndHitWorld = exampleWorld
     [exampleShip 0 (Vector 400 300),
      exampleAsteroid 1 15 (Vector 5 100) (Vector 0 0),
      exampleBullet 2 (Vector 795 100) (Vector 11 0),
      exampleAsteroid 3 70 (Vector 600 500) (Vector 1 1)]"

text \<open>The values \<open>Math.random()\<close> can return.\<close>

definition validRandom :: "world \<Rightarrow> bool" where
  "validRandom w = (\<forall>k. 0 \<le> randomSource w k \<and> randomSource w k < 1)"

text \<open>The radius that the constructor leaves in an asteroid created with the nominal
  radius of tier \<open>t\<close>: the last sample, at least three quarters of the nominal radius
  and below it.\<close>

definition inTier :: "tier \<Rightarrow> entity \<Rightarrow> bool" where
  "inTier t e =
     (instanceof_Asteroid e \<and> AsteroidRadius t * 3 / 4 \<le> radius e \<and> radius e < AsteroidRadius t)"

text \<open>A ship touching a small asteroid, and a bullet about to hit that asteroid.\<close>

definition gameOverWorld :: world where
  "gameOverWorld = exampleWorld
     [exampleShip 0 (Vector 400 300),
      exampleAsteroid 1 15 (Vector 410 300) (Vector 1 0),
      exampleBullet 2 (Vector 423 300) (Vector (- 11) 0)]"

text \<open>A ship, a bullet about to leave through the right edge, and a large asteroid
  far from both.\<close>

definition skipWorld :: world where
  "skipWorld = exampleWorld
     [exampleShip 0 (Vector 400 300),
      exampleBullet 1 (Vector 795 100) (Vector 11 0),
      exampleAsteroid 2 70 (Vector 600 500) (Vector 1 1)]"

text \<open>A ship, a bullet in the middle of the playfield that neither leaves it nor hits
  anything in this tick, and a large asteroid far from both.\<close>

definition cruiseWorld :: world where
  "cruiseWorld = exampleWorld
     [exampleShip 0 (Vector 400 300),
      exampleBullet 1 (Vector 200 200) (Vector 11 0),
      exampleAsteroid 2 70 (Vector 600 500) (Vector 1 1)]"

text \<open>A ship, a large asteroid at rest, and a bullet about to hit it.\<close>

definition spawnWorld :: world where
  "spawnWorld = exampleWorld
     [exampleShip 0 (Vector 400 300),
      exampleAsteroid 1 70 (Vector 100 100) (Vector 0 0),
      exampleBullet 2 (Vector 100 111) (Vector 0 (- 11))]"

text \<open>A ship and two asteroids far from it.\<close>

definition quietWorld :: world where
  "quietWorld = exampleWorld
     [exampleShip 0 (Vector 400 300),
      exampleAsteroid 1 70 (Vector 100 100) (Vector 1 1),
      exampleAsteroid 2 35 (Vector 700 500) (Vector (- 1) 2)]"

text \<open>A ship and a large asteroid far from it, with the fire key held.\<close>

definition fireWorld :: world where
  "fireWorld = (exampleWorld
     [exampleShip 0 (Vector 400 300),
      exampleAsteroid 1 70 (Vector 100 100) (Vector 0 0)])\<lparr>keysDown := {32}\<rparr>"

section \<open>Properties of a single object\<close>

lemma moveX_fields [simp]:
  "variant (moveX cv e) = variant e"
  "gameWorldIndex (moveX cv e) = gameWorldIndex e"
  "velocity (moveX cv e) = velocity e"
  "angle (moveX cv e) = angle e"
  "radius (moveX cv e) = radius e"
  "yc (position (moveX cv e)) = yc (position e)"
  by (simp_all add: moveX_def shiftX_def Let_def)

lemma moveY_fields [simp]:
  "variant (moveY cv e) = variant e"
  "gameWorldIndex (moveY cv e) = gameWorldIndex e"
  "velocity (moveY cv e) = velocity e"
  "angle (moveY cv e) = angle e"
  "radius (moveY cv e) = radius e"
  "xc (position (moveY cv e)) = xc (position e)"
  by (simp_all add: moveY_def shiftY_def Let_def)

lemma moveX_timesWarped:
  "timesWarped (moveX cv e) = timesWarped e + (if crossedX cv e then 1 else 0)"
  by (simp add: moveX_def crossedX_def shiftX_def Let_def)

lemma moveY_timesWarped:
  "timesWarped (moveY cv e) = timesWarped e + (if crossedY cv e then 1 else 0)"
  by (simp add: moveY_def crossedY_def shiftY_def Let_def)

lemma crossedY_moveX [simp]: "crossedY cv (moveX cv e) = crossedY cv e"
  by (simp add: crossedY_def)

lemma GameWorldObject_update_fields [simp]:
  "gameWorldIndex (GameWorldObject_update cv e) = gameWorldIndex e"
  "velocity (GameWorldObject_update cv e) = velocity e"
  "angle (GameWorldObject_update cv e) = angle e"
  "radius (GameWorldObject_update cv e) = radius e"
  "position (GameWorldObject_update cv e) = position (moveY cv (moveX cv e))"
  by (simp_all add: GameWorldObject_update_def Let_def)

lemma GameWorldObject_update_timesWarped:
  "timesWarped (GameWorldObject_update cv e) = timesWarped e + axesCrossed cv e"
  by (simp add: GameWorldObject_update_def Let_def moveY_timesWarped moveX_timesWarped
        axesCrossed_def)

lemma moveX_xc:
  "xc (position (moveX cv e)) =
     (let a = xc (position e) + xc (velocity e) in
      if a > width cv then a - (width cv - 1) else if a < 0 then a + (width cv - 1) else a)"
  by (simp add: moveX_def shiftX_def Let_def)

lemma moveY_yc:
  "yc (position (moveY cv e)) =
     (let a = yc (position e) + yc (velocity e) in
      if a > height cv then a - (height cv - 1) else if a < 0 then a + (height cv - 1) else a)"
  by (simp add: moveY_def shiftY_def Let_def)

text \<open>C8: one call of the base \<open>update\<close> adds to \<open>timesWarped\<close> the number of axes on
  which the moved position left the playfield: nothing when neither did, one when
  exactly one did, two when both did.\<close>

theorem C8_timesWarped_counts_axes:
  "timesWarped (GameWorldObject_update cv e) = timesWarped e + axesCrossed cv e \<and>
   (\<not> crossedX cv e \<and> \<not> crossedY cv e \<longrightarrow>
      timesWarped (GameWorldObject_update cv e) = timesWarped e) \<and>
   (crossedX cv e \<noteq> crossedY cv e \<longrightarrow>
      timesWarped (GameWorldObject_update cv e) = timesWarped e + 1) \<and>
   (crossedX cv e \<and> crossedY cv e \<longrightarrow>
      timesWarped (GameWorldObject_update cv e) = timesWarped e + 2)"
  by (auto simp add: GameWorldObject_update_timesWarped axesCrossed_def)

theorem C8_timesWarped_counts_axes_witness:
  "timesWarped (GameWorldObject_update exampleCanvas
      (exampleBullet 0 (Vector 5 20) (Vector 11 (- 11)))) = 0 \<and>
   timesWarped (GameWorldObject_update exampleCanvas
      (exampleBullet 0 (Vector 5 2) (Vector 11 (- 11)))) = 1 \<and>
   timesWarped (GameWorldObject_update exampleCanvas
      (exampleBullet 0 (Vector 795 2) (Vector 11 (- 11)))) = 2"
proof -
  have a: "\<not> crossedX exampleCanvas (exampleBullet 0 (Vector 5 20) (Vector 11 (- 11)))"
    "\<not> crossedY exampleCanvas (exampleBullet 0 (Vector 5 20) (Vector 11 (- 11)))"
    "\<not> crossedX exampleCanvas (exampleBullet 0 (Vector 5 2) (Vector 11 (- 11)))"
    "crossedY exampleCanvas (exampleBullet 0 (Vector 5 2) (Vector 11 (- 11)))"
    "crossedX exampleCanvas (exampleBullet 0 (Vector 795 2) (Vector 11 (- 11)))"
    "crossedY exampleCanvas (exampleBullet 0 (Vector 795 2) (Vector 11 (- 11)))"
    by (simp_all add: crossedX_def crossedY_def exampleCanvas_def exampleBullet_def Vector_def)
  have b: "timesWarped (exampleBullet 0 p v) = 0" for p v
    by (simp add: exampleBullet_def)
  show ?thesis
    using a b
      C8_timesWarped_counts_axes [of exampleCanvas "exampleBullet 0 (Vector 5 20) (Vector 11 (- 11))"]
      C8_timesWarped_counts_axes [of exampleCanvas "exampleBullet 0 (Vector 5 2) (Vector 11 (- 11))"]
      C8_timesWarped_counts_axes [of exampleCanvas "exampleBullet 0 (Vector 795 2) (Vector 11 (- 11))"]
    by simp
qed

text \<open>C7 as the specification states it fails in two ways. An object that lands
  exactly on the far edge is not wrapped and stays there; and a wrap shifts by the
  edge length minus one, so a speed just below the edge length can leave the object
  outside after the wrap.\<close>

theorem C7_counterexample:
  "speed (Vector 1 0) < height exampleCanvas \<and>
   0 \<le> xc (Vector 799 300 :: real vector) \<and> xc (Vector 799 300) < width exampleCanvas \<and>
   0 \<le> yc (Vector 799 300 :: real vector) \<and> yc (Vector 799 300) < height exampleCanvas \<and>
   \<not> xc (position (GameWorldObject_update exampleCanvas
            (exampleBullet 0 (Vector 799 300) (Vector 1 0)))) < width exampleCanvas \<and>
   speed (Vector (- 1599 / 2) 0) < width squareCanvas \<and>
   speed (Vector (- 1599 / 2) 0) < height squareCanvas \<and>
   0 \<le> xc (Vector 0 300 :: real vector) \<and> xc (Vector 0 300) < width squareCanvas \<and>
   0 \<le> yc (Vector 0 300 :: real vector) \<and> yc (Vector 0 300) < height squareCanvas \<and>
   \<not> 0 \<le> xc (position (GameWorldObject_update squareCanvas
            (exampleBullet 0 (Vector 0 300) (Vector (- 1599 / 2) 0))))"
  by (simp add: speed_def Vector_def exampleCanvas_def squareCanvas_def exampleBullet_def
        moveX_xc Let_def)

text \<open>C7, amended: when the speed is at most the edge length minus one on each
  axis, the closed playfield is kept: components in \<open>[0, edge]\<close> stay in
  \<open>[0, edge]\<close>.\<close>

theorem C7_position_stays_in_closed_playfield:
  assumes "speed (velocity e) \<le> width cv - 1" and "speed (velocity e) \<le> height cv - 1"
    and "0 \<le> xc (position e)" and "xc (position e) \<le> width cv"
    and "0 \<le> yc (position e)" and "yc (position e) \<le> height cv"
  shows "0 \<le> xc (position (GameWorldObject_update cv e)) \<and>
         xc (position (GameWorldObject_update cv e)) \<le> width cv \<and>
         0 \<le> yc (position (GameWorldObject_update cv e)) \<and>
         yc (position (GameWorldObject_update cv e)) \<le> height cv"
proof -
  have "\<bar>xc (velocity e)\<bar> \<le> speed (velocity e)" "\<bar>yc (velocity e)\<bar> \<le> speed (velocity e)"
    by (simp_all add: speed_def)
  with assms have vx: "\<bar>xc (velocity e)\<bar> \<le> width cv - 1" and vy: "\<bar>yc (velocity e)\<bar> \<le> height cv - 1"
    by linarith+
  have x: "0 \<le> xc (position (moveX cv e)) \<and> xc (position (moveX cv e)) \<le> width cv"
    using vx assms(3,4) by (simp add: moveX_xc Let_def) linarith
  have y: "0 \<le> yc (position (moveY cv (moveX cv e))) \<and> yc (position (moveY cv (moveX cv e))) \<le> height cv"
    using vy assms(5,6) by (simp add: moveY_yc Let_def) linarith
  show ?thesis using x y by simp
qed

theorem C7_position_stays_in_closed_playfield_witness:
  "xc (position (GameWorldObject_update exampleCanvas
      (exampleBullet 0 (Vector 799 300) (Vector 1 0)))) = 800 \<and>
   0 \<le> yc (position (GameWorldObject_update exampleCanvas
      (exampleBullet 0 (Vector 799 300) (Vector 1 0)))) \<and>
   yc (position (GameWorldObject_update exampleCanvas
      (exampleBullet 0 (Vector 799 300) (Vector 1 0)))) \<le> 600"
proof -
  let ?e = "exampleBullet 0 (Vector 799 300) (Vector 1 0)"
  have h: "speed (velocity ?e) \<le> width exampleCanvas - 1"
    "speed (velocity ?e) \<le> height exampleCanvas - 1"
    "0 \<le> xc (position ?e)" "xc (position ?e) \<le> width exampleCanvas"
    "0 \<le> yc (position ?e)" "yc (position ?e) \<le> height exampleCanvas"
    by (simp_all add: speed_def exampleBullet_def Vector_def exampleCanvas_def)
  have "xc (position (GameWorldObject_update exampleCanvas ?e)) = 800"
    by (simp add: exampleBullet_def Vector_def exampleCanvas_def moveX_xc)
  with C7_position_stays_in_closed_playfield [OF h] show ?thesis
    by (simp add: exampleCanvas_def)
qed

subsection \<open>Rounding\<close>

lemma roundEven_of_int [simp]: "roundEven (of_int n) = n"
  by (simp add: roundEven_def)

lemma roundEven_near:
  assumes "of_int n - 1 / 2 < y" and "y < of_int n + 1 / 2"
  shows "roundEven y = n"
proof -
  have "\<lfloor>y\<rfloor> = n \<or> \<lfloor>y\<rfloor> = n - 1"
    using assms by linarith
  then show ?thesis
  proof
    assume f: "\<lfloor>y\<rfloor> = n"
    then have "y - of_int \<lfloor>y\<rfloor> < 1 / 2" using assms by simp
    then show ?thesis by (simp add: roundEven_def f Let_def)
  next
    assume f: "\<lfloor>y\<rfloor> = n - 1"
    then have "1 / 2 < y - of_int \<lfloor>y\<rfloor>" using assms by simp
    then show ?thesis using f by (simp add: roundEven_def Let_def)
  qed
qed

lemma roundEven_bounds: "\<lfloor>y\<rfloor> \<le> roundEven y \<and> roundEven y \<le> \<lfloor>y\<rfloor> + 1"
  by (simp add: roundEven_def Let_def)

lemma roundEven_le:
  assumes "y \<le> of_int n"
  shows "roundEven y \<le> n"
proof (cases "y = of_int n")
  case True
  then show ?thesis by simp
next
  case False
  then have "y < of_int n" using assms by simp
  then have "\<lfloor>y\<rfloor> + 1 \<le> n" by linarith
  then show ?thesis using roundEven_bounds [of y] by linarith
qed

lemma roundEven_nonneg: "0 \<le> y \<Longrightarrow> 0 \<le> roundEven y"
proof -
  assume "0 \<le> y"
  then have "0 \<le> \<lfloor>y\<rfloor>" by simp
  then show ?thesis using roundEven_bounds [of y] by linarith
qed

lemma floor_log2:
  assumes "2 powr of_int k \<le> y" and "y < 2 powr (of_int k + 1)"
  shows "\<lfloor>log 2 y\<rfloor> = k"
proof -
  have pos: "0 < y" using assms(1) by (smt (verit) powr_gt_zero)
  have "of_int k \<le> log 2 y"
    using assms(1) pos by (simp add: le_log_iff)
  moreover have "log 2 y < of_int k + 1"
    using assms(2) pos by (simp add: log_less_iff)
  ultimately show ?thesis by linarith
qed

text \<open>The rounding of a number in the binade of exponent \<open>k\<close>.\<close>

lemma double_binade:
  assumes "2 powr of_int k \<le> \<bar>x\<bar>" and "\<bar>x\<bar> < 2 powr (of_int k + 1)" and "- 1022 \<le> k"
  shows "double x = 2 powr (of_int k - 52) * of_int (roundEven (x / 2 powr (of_int k - 52)))"
proof -
  have "x \<noteq> 0" using assms(1) by (smt (verit) powr_gt_zero)
  moreover have "\<lfloor>log 2 \<bar>x\<bar>\<rfloor> = k" by (rule floor_log2 [OF assms(1,2)])
  ultimately show ?thesis using assms(3) by (simp add: double_def Let_def max_def)
qed

lemma double_nonneg:
  assumes "0 \<le> x"
  shows "0 \<le> double x"
proof (cases "x = 0")
  case True
  then show ?thesis by (simp add: double_def)
next
  case False
  define u :: real where "u = 2 powr (of_int (max \<lfloor>log 2 \<bar>x\<bar>\<rfloor> (- 1022)) - 52)"
  have u: "0 < u" by (simp add: u_def)
  have "0 \<le> x / u" using assms u by simp
  then have "0 \<le> roundEven (x / u)" by (rule roundEven_nonneg)
  then have "0 \<le> u * of_int (roundEven (x / u))" using u by simp
  then show ?thesis using False by (simp add: double_def Let_def u_def)
qed


text \<open>A non-negative number below 360 is never rounded above 360.\<close>

lemma double_le_360:
  assumes "0 \<le> x" and "x \<le> 360"
  shows "double x \<le> 360"
proof (cases "256 \<le> x")
  case True
  have p: "(2::real) powr of_int 8 = 256" "(2::real) powr (of_int 8 + 1) = 512"
    by (simp_all add: powr_numeral)
  have d: "double x = 2 powr (of_int 8 - 52) * of_int (roundEven (x / 2 powr (of_int 8 - 52)))"
    using True assms by (intro double_binade) (simp_all add: p)
  have u: "(2::real) powr (of_int 8 - 52) = 1 / 2 ^ 44"
  proof -
    have "(of_int 8 - 52 :: real) = - 44" by simp
    then show ?thesis by (simp only: powr_neg_numeral zero_less_numeral)
  qed
  have d2: "double x = of_int (roundEven (x * 2 ^ 44)) / 2 ^ 44"
    unfolding d u by simp
  have "roundEven (x * 2 ^ 44) \<le> 360 * 2 ^ 44"
    using assms(2) by (intro roundEven_le) simp
  then have "(of_int (roundEven (x * 2 ^ 44)) :: real) \<le> of_int (360 * 2 ^ 44)"
    by (simp only: of_int_le_iff)
  then show ?thesis
    unfolding d2 by (simp add: divide_le_eq)
next
  case False
  show ?thesis
  proof (cases "x = 0")
    case True
    then show ?thesis by (simp add: double_def)
  next
    case nz: False
    then have pos: "0 < x" using assms(1) by simp
    define e where "e = max \<lfloor>log 2 \<bar>x\<bar>\<rfloor> (- 1022)"
    define u :: real where "u = 2 powr (of_int e - 52)"
    have u: "0 < u" by (simp add: u_def)
    have "log 2 x < 8"
      using False pos by (simp add: log_less_iff powr_numeral)
    then have "\<lfloor>log 2 x\<rfloor> \<le> 7" by linarith
    moreover have "\<bar>x\<bar> = x" using pos by simp
    ultimately have e7: "e \<le> 7"
      unfolding e_def by simp
    have "log 2 x < of_int \<lfloor>log 2 x\<rfloor> + 1" by linarith
    also have "\<dots> \<le> of_int e + 1"
    proof -
      have "\<bar>x\<bar> = x" using pos by simp
      then show ?thesis by (simp add: e_def)
    qed
    finally have "x < 2 powr (of_int e + 1)"
      using pos by (simp add: log_less_iff)
    note this
    have q: "2 powr (of_int e + 1) / u = 2 powr 53"
    proof -
      have "2 powr (of_int e + 1) / u = 2 powr ((of_int e + 1) - (of_int e - 52))"
        unfolding u_def by (simp only: powr_diff)
      also have "(of_int e + 1) - (of_int e - 52) = (53 :: real)" by simp
      finally show ?thesis .
    qed
    have p53: "(2::real) powr 53 = 2 ^ 53"
      by (simp only: powr_numeral zero_less_numeral)
    have "x / u < 2 powr (of_int e + 1) / u"
      using u \<open>x < 2 powr (of_int e + 1)\<close> by (simp add: divide_strict_right_mono)
    then have "x / u \<le> of_int (2 ^ 53)"
      unfolding q p53 by simp
    then have "roundEven (x / u) \<le> 2 ^ 53"
      by (rule roundEven_le)
    then have "(of_int (roundEven (x / u)) :: real) \<le> of_int (2 ^ 53)"
      by (simp only: of_int_le_iff)
    then have "of_int (roundEven (x / u)) \<le> 2 powr (of_int e + 1) / u"
      unfolding q p53 by simp
    then have "u * of_int (roundEven (x / u)) \<le> 2 powr (of_int e + 1)"
      using u by (simp add: pos_le_divide_eq mult.commute)
    also have "\<dots> \<le> 2 powr 8"
    proof (rule powr_mono)
      show "real_of_int e + 1 \<le> 8" using e7 by simp
      show "(1::real) \<le> 2" by simp
    qed
    also have "\<dots> = 256" by (simp only: powr_numeral zero_less_numeral) simp
    finally have "u * of_int (roundEven (x / u)) \<le> 360" by simp
    then show ?thesis using nz by (simp add: double_def Let_def u_def e_def)
  qed
qed


text \<open>Integers below \<open>2^53\<close> in magnitude are representable.\<close>

lemma double_of_int:
  assumes "\<bar>n\<bar> < 2 ^ 53"
  shows "double (of_int n) = of_int n"
proof (cases "n = 0")
  case True
  then show ?thesis by (simp add: double_def)
next
  case False
  define x :: real where "x = of_int n"
  define k where "k = \<lfloor>log 2 \<bar>x\<bar>\<rfloor>"
  have ax: "\<bar>x\<bar> = of_int \<bar>n\<bar>" by (simp add: x_def)
  have "1 \<le> \<bar>n\<bar>" using False by linarith
  then have x1: "1 \<le> \<bar>x\<bar>"
    unfolding ax by (simp only: of_int_1_le_iff)
  have "(of_int \<bar>n\<bar> :: real) < of_int (2 ^ 53)"
    using assms by (simp only: of_int_less_iff)
  then have "\<bar>x\<bar> < 2 ^ 53"
    unfolding ax by simp
  then have x2: "\<bar>x\<bar> < 2 powr 53"
    by (simp only: powr_numeral zero_less_numeral)
  have "0 \<le> log 2 \<bar>x\<bar>" using x1 by simp
  then have k0: "0 \<le> k" by (simp add: k_def)
  have "log 2 \<bar>x\<bar> < 53"
    using x1 x2 by (simp add: log_less_iff)
  then have k52: "k \<le> 52" unfolding k_def by linarith
  define j where "j = nat (52 - k)"
  have j: "real j = 52 - of_int k" using k52 by (simp add: j_def)
  have u: "(2::real) powr (of_int k - 52) = 1 / 2 ^ j"
  proof -
    have "(2::real) powr (of_int k - 52) = 2 powr (- real j)" by (simp add: j)
    also have "\<dots> = 1 / 2 powr (real j)" by (simp add: powr_minus divide_inverse)
    also have "\<dots> = 1 / 2 ^ j" by (simp only: powr_realpow zero_less_numeral)
    finally show ?thesis .
  qed
  have "x / (1 / 2 ^ j) = of_int (n * 2 ^ j)" by (simp add: x_def)
  then have "roundEven (x / (1 / 2 ^ j)) = n * 2 ^ j"
    by (simp only: roundEven_of_int)
  then have "(1 / 2 ^ j) * of_int (roundEven (x / (1 / 2 ^ j))) = x"
    by (simp add: x_def)
  moreover have "x \<noteq> 0" using x1 by auto
  moreover have "max k (- 1022) = k" using k0 by simp
  ultimately have "double x = x"
    by (simp add: double_def Let_def k_def [symmetric] u)
  then show ?thesis by (simp add: x_def)
qed

lemma double_numeral [simp]:
  "double 0 = 0" "double 1 = 1" "double 10 = 10" "double 725 = 725"
  "double (- 40) = - 40" "double (- 350) = - 350" "double (- 400) = - 400"
  using double_of_int [of 0] double_of_int [of 1] double_of_int [of 10] double_of_int [of 725]
    double_of_int [of "- 40"] double_of_int [of "- 350"] double_of_int [of "- 400"]
  by simp_all

text \<open>The number \<open>-2^-60\<close> is representable, and \<open>360 - 2^-60\<close> lies less than half a
  unit in the last place below 360, so the addition rounds it to 360.\<close>

lemma double_tiny: "double (- (1 / 2 ^ 60)) = - (1 / 2 ^ 60)"
proof -
  have p: "(2::real) powr of_int (- 60) = 1 / 2 ^ 60"
    by (simp only: of_int_minus of_int_numeral powr_neg_numeral zero_less_numeral)
  have p1: "(2::real) powr (of_int (- 60) + 1) = 1 / 2 ^ 59"
  proof -
    have "(of_int (- 60) + 1 :: real) = - 59" by simp
    then show ?thesis by (simp only: powr_neg_numeral zero_less_numeral)
  qed
  have u: "(2::real) powr (of_int (- 60) - 52) = 1 / 2 ^ 112"
  proof -
    have "(of_int (- 60) - 52 :: real) = - 112" by simp
    then show ?thesis by (simp only: powr_neg_numeral zero_less_numeral)
  qed
  have d: "double (- (1 / 2 ^ 60)) = 2 powr (of_int (- 60) - 52) *
      of_int (roundEven (- (1 / 2 ^ 60) / 2 powr (of_int (- 60) - 52)))"
    by (rule double_binade) (simp_all only: p p1, simp_all)
  have "- (1 / 2 ^ 60) / (1 / 2 ^ 112) = (of_int (- (2 ^ 52)) :: real)" by simp
  then have "roundEven (- (1 / 2 ^ 60) / (1 / 2 ^ 112)) = - (2 ^ 52)"
    by (simp only: roundEven_of_int)
  then show ?thesis
    unfolding d u by simp
qed

lemma double_just_below_360: "double (- (1 / 2 ^ 60) + 360) = 360"
proof -
  have p: "(2::real) powr of_int 8 = 256" "(2::real) powr (of_int 8 + 1) = 512"
    by (simp_all add: powr_numeral)
  have u: "(2::real) powr (of_int 8 - 52) = 1 / 2 ^ 44"
  proof -
    have "(of_int 8 - 52 :: real) = - 44" by simp
    then show ?thesis by (simp only: powr_neg_numeral zero_less_numeral)
  qed
  have d: "double (- (1 / 2 ^ 60) + 360) = 2 powr (of_int 8 - 52) *
      of_int (roundEven ((- (1 / 2 ^ 60) + 360) / 2 powr (of_int 8 - 52)))"
    by (rule double_binade) (simp_all only: p, simp_all)
  have "roundEven ((- (1 / 2 ^ 60) + 360) / (1 / 2 ^ 44)) = 360 * 2 ^ 44"
    by (rule roundEven_near) simp_all
  then show ?thesis
    unfolding d u by simp
qed

subsection \<open>The angle\<close>

lemma js_rem_360:
  assumes "360 \<le> a"
  shows "0 \<le> js_rem a 360 \<and> js_rem a 360 < 360"
proof -
  have q: "0 \<le> a / 360" using assms by simp
  have "of_int \<lfloor>a / 360\<rfloor> \<le> a / 360" "a / 360 < of_int \<lfloor>a / 360\<rfloor> + 1"
    by linarith+
  then have "360 * of_int \<lfloor>a / 360\<rfloor> \<le> a" "a < 360 * of_int \<lfloor>a / 360\<rfloor> + 360"
    by (simp_all add: field_simps)
  then show ?thesis using q by (simp add: js_rem_def)
qed

lemma angle_rotate_Num:
  "angle (rotate (Num d) e) =
     (if double (angle e + d) \<ge> 360 then js_rem (double (angle e + d)) 360
      else if double (angle e + d) < 0 then double (double (angle e + d) + 360)
      else double (angle e + d))"
  by (simp add: rotate_def Let_def)

lemma angle_setAngle_Num: "angle (setAngle (Num a) e) = a"
  by (simp add: setAngle_def)




text \<open>\<open>setAngle\<close> ignores every argument that is not a number, and \<open>setPosition\<close>
  ignores a first argument that is neither an object nor a number.\<close>

lemma setAngle_ignores_non_numbers:
  "typeof a \<noteq> ''number'' \<Longrightarrow> setAngle a e = e"
  by (simp add: setAngle_def)

lemma setPosition_ignores_non_objects:
  "typeof a \<noteq> ''object'' \<Longrightarrow> typeof a \<noteq> ''number'' \<or> typeof b \<noteq> ''number'' \<Longrightarrow>
     setPosition a b pos = Inr pos"
  by (auto simp add: setPosition_def)

text \<open>C9: the claim fails on \<open>setPosition\<close>. The guard of its object branch is
  \<open>typeof x === 'object'\<close>, which holds for \<open>null\<close>: \<open>setPosition(null)\<close> reads
  \<open>null.x\<close> and throws a \<open>TypeError\<close>; and \<open>setPosition({})\<close> overwrites both
  coordinates with \<open>undefined\<close>, as an object with a string in \<open>x\<close> overwrites them
  with that string and \<open>undefined\<close>.\<close>

theorem C9_setPosition_null_throws:
  "setPosition Null Undefined \<lparr>xc = Num 1, yc = Num 2\<rparr> = Inl TypeError \<and>
   setPosition Null Null \<lparr>xc = Num 1, yc = Num 2\<rparr> = Inl TypeError \<and>
   setPosition (Obj []) Undefined \<lparr>xc = Num 1, yc = Num 2\<rparr> = Inr \<lparr>xc = Undefined, yc = Undefined\<rparr> \<and>
   setPosition (Obj [(''x'', Str ''a'')]) Undefined \<lparr>xc = Num 1, yc = Num 2\<rparr>
     = Inr \<lparr>xc = Str ''a'', yc = Undefined\<rparr>"
  by (simp add: setPosition_def)

section \<open>The registry\<close>

lemma indexInvariant_iff:
  "indexInvariant w =
     (\<forall>i < length (gameWorldObjects w). gameWorldIndex (objectStore w (gameWorldObjects w ! i)) = i)"
  by (auto simp add: indexInvariant_def list_all_iff)

lemma registryAllocated_iff:
  "registryAllocated w = (\<forall>r \<in> set (gameWorldObjects w). r < allocated w)"
  by (simp add: registryAllocated_def list_all_iff)

lemma indexInvariant_distinct:
  assumes "indexInvariant w"
  shows "distinct (gameWorldObjects w)"
  unfolding distinct_conv_nth
proof (intro allI impI)
  fix i j
  assume "i < length (gameWorldObjects w)" "j < length (gameWorldObjects w)" "i \<noteq> j"
  with assms show "gameWorldObjects w ! i \<noteq> gameWorldObjects w ! j"
    by (metis indexInvariant_iff)
qed

lemma indexInvariant_member:
  assumes "indexInvariant w" and "r \<in> set (gameWorldObjects w)"
  shows "gameWorldIndex (objectStore w r) < length (gameWorldObjects w) \<and>
         gameWorldObjects w ! gameWorldIndex (objectStore w r) = r"
  using assms by (metis in_set_conv_nth indexInvariant_iff)

lemma gameWorldIndex_fold_decrementIndex:
  "distinct rs \<Longrightarrow>
     gameWorldIndex (fold decrementIndex rs store r) =
       (if r \<in> set rs then gameWorldIndex (store r) - 1 else gameWorldIndex (store r))"
  by (induction rs arbitrary: store) (auto simp add: decrementIndex_def)

lemma length_splice1: "k < length xs \<Longrightarrow> length (splice1 k xs) = length xs - 1"
  by (simp add: splice1_def)

lemma nth_splice1:
  "k < length xs \<Longrightarrow> j < length xs - 1 \<Longrightarrow>
     splice1 k xs ! j = (if j < k then xs ! j else xs ! Suc j)"
  by (auto simp add: splice1_def nth_append min_absorb2)

lemma drop_splice1: "k < length xs \<Longrightarrow> drop k (splice1 k xs) = drop (Suc k) xs"
  by (simp add: splice1_def min_absorb2)

lemma subseq_set: "subseq xs ys \<Longrightarrow> set xs \<subseteq> set ys"
  by (auto dest: list_emb_set)

lemma subseq_distinct: "subseq xs ys \<Longrightarrow> distinct ys \<Longrightarrow> distinct xs"
  by (auto simp add: subseq_conv_nths)

lemma distinct_splice1: "distinct xs \<Longrightarrow> distinct (splice1 k xs)"
  using subseq_drop_splice1 [of 0 k xs] by (simp add: subseq_distinct)

lemma set_splice1: "distinct xs \<Longrightarrow> k < length xs \<Longrightarrow> set (splice1 k xs) = set xs - {xs ! k}"
proof -
  assume d: "distinct xs" and k: "k < length xs"
  have xs: "xs = take k xs @ xs ! k # drop (Suc k) xs"
    using k by (simp add: id_take_nth_drop [symmetric])
  have "distinct (take k xs @ xs ! k # drop (Suc k) xs)"
    using d xs by simp
  then have "xs ! k \<notin> set (take k xs)" "xs ! k \<notin> set (drop (Suc k) xs)"
    by auto
  moreover have "set xs = set (take k xs) \<union> {xs ! k} \<union> set (drop (Suc k) xs)"
    by (subst xs) auto
  ultimately show ?thesis
    by (auto simp add: splice1_def)
qed

lemma nth_not_in_drop:
  assumes "distinct xs" "j \<le> k" "j < length xs"
  shows "xs ! j \<notin> set (drop (Suc k) xs)"
proof
  assume "xs ! j \<in> set (drop (Suc k) xs)"
  then obtain m where "m < length xs - Suc k" "drop (Suc k) xs ! m = xs ! j"
    by (auto simp add: in_set_conv_nth)
  then have "xs ! (Suc k + m) = xs ! j" "Suc k + m < length xs"
    by simp_all
  with assms show False
    by (metis nth_eq_iff_index_eq add_Suc le_add1 not_less_eq_eq le_trans)
qed

lemma destroy_registry:
  "gameWorldObjects (destroy r w) = splice1 (gameWorldIndex (objectStore w r)) (gameWorldObjects w)"
  "allocated (destroy r w) = allocated w"
  by (simp_all add: destroy_def Let_def)

lemma indexInvariant_destroy:
  assumes inv: "indexInvariant w" and live: "r \<in> set (gameWorldObjects w)"
  shows "indexInvariant (destroy r w)"
proof -
  let ?xs = "gameWorldObjects w"
  let ?k = "gameWorldIndex (objectStore w r)"
  have k: "?k < length ?xs" and rk: "?xs ! ?k = r"
    using indexInvariant_member [OF inv live] by simp_all
  have d: "distinct ?xs" by (rule indexInvariant_distinct [OF inv])
  have store: "objectStore (destroy r w) = fold decrementIndex (drop (Suc ?k) ?xs) (objectStore w)"
    using k by (simp add: destroy_def Let_def drop_splice1)
  have dd: "distinct (drop (Suc ?k) ?xs)" using d by simp
  show ?thesis
    unfolding indexInvariant_iff
  proof (intro allI impI)
    fix j
    assume "j < length (gameWorldObjects (destroy r w))"
    then have j: "j < length ?xs - 1"
      using k by (simp add: destroy_registry length_splice1)
    show "gameWorldIndex (objectStore (destroy r w) (gameWorldObjects (destroy r w) ! j)) = j"
    proof (cases "j < ?k")
      case True
      then have "gameWorldObjects (destroy r w) ! j = ?xs ! j"
        using k j by (simp add: destroy_registry nth_splice1)
      moreover have "?xs ! j \<notin> set (drop (Suc ?k) ?xs)"
        using nth_not_in_drop [OF d, of j ?k] True j by simp
      moreover have "gameWorldIndex (objectStore w (?xs ! j)) = j"
        using inv j by (simp add: indexInvariant_iff)
      ultimately show ?thesis
        by (simp add: store gameWorldIndex_fold_decrementIndex [OF dd])
    next
      case False
      then have "gameWorldObjects (destroy r w) ! j = ?xs ! Suc j"
        using k j by (simp add: destroy_registry nth_splice1)
      moreover have "?xs ! Suc j \<in> set (drop (Suc ?k) ?xs)"
      proof -
        have "drop (Suc ?k) ?xs ! (j - ?k) = ?xs ! Suc j" using False j k by simp
        moreover have "j - ?k < length (drop (Suc ?k) ?xs)" using False j k by simp
        ultimately show ?thesis by (metis nth_mem)
      qed
      moreover have "gameWorldIndex (objectStore w (?xs ! Suc j)) = Suc j"
        using inv j by (simp add: indexInvariant_iff)
      ultimately show ?thesis
        by (simp add: store gameWorldIndex_fold_decrementIndex [OF dd])
    qed
  qed
qed

lemma registryAllocated_destroy:
  assumes "registryAllocated w"
  shows "registryAllocated (destroy r w)"
proof -
  have "set (splice1 k (gameWorldObjects w)) \<subseteq> set (gameWorldObjects w)" for k
    using subseq_drop_splice1 [of 0 k "gameWorldObjects w"] subseq_set by fastforce
  with assms show ?thesis
    by (auto simp add: registryAllocated_iff destroy_registry)
qed

text \<open>Creating an object whose stored index is the current length of the registry,
  and pushing it.\<close>

lemma indexInvariant_push_new:
  assumes inv: "indexInvariant w" and al: "registryAllocated w"
    and e: "gameWorldIndex e = length (gameWorldObjects w)"
  shows "indexInvariant (push (fst (allocate e w)) (snd (allocate e w)))"
    and "registryAllocated (push (fst (allocate e w)) (snd (allocate e w)))"
proof -
  have fresh: "allocated w \<notin> set (gameWorldObjects w)"
    using al by (auto simp add: registryAllocated_iff)
  show "indexInvariant (push (fst (allocate e w)) (snd (allocate e w)))"
    unfolding indexInvariant_iff
  proof (intro allI impI)
    fix i
    assume "i < length (gameWorldObjects (push (fst (allocate e w)) (snd (allocate e w))))"
    then have i: "i < Suc (length (gameWorldObjects w))"
      by (simp add: push_def allocate_def)
    show "gameWorldIndex (objectStore (push (fst (allocate e w)) (snd (allocate e w)))
            (gameWorldObjects (push (fst (allocate e w)) (snd (allocate e w))) ! i)) = i"
    proof (cases "i < length (gameWorldObjects w)")
      case True
      then have "gameWorldObjects w ! i \<noteq> allocated w"
        using fresh by (metis nth_mem)
      then show ?thesis
        using True inv by (simp add: push_def allocate_def nth_append indexInvariant_iff)
    next
      case False
      then have "i = length (gameWorldObjects w)" using i by simp
      then show ?thesis
        using e by (simp add: push_def allocate_def nth_append)
    qed
  qed
  show "registryAllocated (push (fst (allocate e w)) (snd (allocate e w)))"
    using al by (auto simp add: registryAllocated_iff push_def allocate_def)
qed

lemma wellFormed_fields:
  assumes "objectStore w' = objectStore w" "gameWorldObjects w' = gameWorldObjects w"
    "allocated w' = allocated w"
  shows "wellFormed w' = wellFormed w"
  using assms by (simp add: wellFormed_def indexInvariant_def registryAllocated_def)

lemma wellFormed_store:
  assumes "gameWorldIndex e = gameWorldIndex (objectStore w r)"
  shows "wellFormed (w\<lparr>objectStore := (objectStore w)(r := e)\<rparr>) = wellFormed w"
  using assms by (auto simp add: wellFormed_def indexInvariant_iff registryAllocated_iff)

lemma wellFormed_other_fields [simp]:
  "wellFormed (w\<lparr>randomsDrawn := n\<rparr>) = wellFormed w"
  "wellFormed (w\<lparr>clockReads := n\<rparr>) = wellFormed w"
  "wellFormed (w\<lparr>ship := r\<rparr>) = wellFormed w"
  "wellFormed (w\<lparr>score := p\<rparr>) = wellFormed w"
  "wellFormed (w\<lparr>gameState := st\<rparr>) = wellFormed w"
  "wellFormed (w\<lparr>keysDown := ks\<rparr>) = wellFormed w"
  "wellFormed (w\<lparr>lastFrame := t\<rparr>) = wellFormed w"
  by (simp_all add: wellFormed_def indexInvariant_def registryAllocated_def)

lemma wellFormed_push_new:
  assumes "wellFormed w" and "gameWorldIndex e = length (gameWorldObjects w)"
  shows "wellFormed (push (fst (allocate e w)) (snd (allocate e w)))"
  using assms indexInvariant_push_new [of w e] by (simp add: wellFormed_def)

lemma wellFormed_destroy:
  assumes "wellFormed w" and "r \<in> set (gameWorldObjects w)"
  shows "wellFormed (destroy r w)"
  using assms by (simp add: wellFormed_def indexInvariant_destroy registryAllocated_destroy)

lemma gameWorldIndex_Bullet_new [simp]:
  "gameWorldIndex (Bullet_new pos ang w) = length (gameWorldObjects w)"
  by (simp add: Bullet_new_def GameWorldObject_new_def Let_def)

lemma gameWorldIndex_Ship_new [simp]:
  "gameWorldIndex (fst (Ship_new pos vel ang rad w)) = length (gameWorldObjects w)"
  by (simp add: Ship_new_def GameWorldObject_new_def Let_def Date_now_def)

lemma Ship_new_world:
  "snd (Ship_new pos vel ang rad w) = w\<lparr>clockReads := clockReads w + 1\<rparr>"
  by (simp add: Ship_new_def Let_def Date_now_def)

lemma wellFormed_createShip:
  assumes "wellFormed w"
  shows "wellFormed (createShip w)"
proof -
  define s where "s = fst (Ship_new (Vector (width (canvas w) / 2) (height (canvas w) / 2))
                      (Vector 0 0) 90 20 w)"
  define w1 where "w1 = w\<lparr>clockReads := clockReads w + 1\<rparr>"
  have eq: "createShip w = (push (fst (allocate s w1)) (snd (allocate s w1)))\<lparr>ship := allocated w\<rparr>"
    by (simp add: createShip_def split_beta s_def w1_def Ship_new_world allocate_def push_def)
  have "wellFormed w1"
    using assms by (simp add: w1_def)
  moreover have "gameWorldIndex s = length (gameWorldObjects w1)"
    by (simp add: s_def w1_def)
  ultimately have "wellFormed (push (fst (allocate s w1)) (snd (allocate s w1)))"
    by (rule wellFormed_push_new)
  then show ?thesis
    unfolding eq by simp
qed

lemma wellFormed_spawnChild:
  assumes "wellFormed w"
  shows "wellFormed (spawnChild t this w)"
proof -
  define w3 where "w3 = w\<lparr>randomsDrawn := randomsDrawn w + 3 + 2 * granularity\<rparr>"
  define child where "child = fst (Asteroid_new
      (Vector (xc (position (objectStore w this))) (yc (position (objectStore w this))))
      (Vector (randomSource w (randomsDrawn w) * AsteroidMaxVelocity t - AsteroidMaxVelocity t / 2)
              (randomSource w (randomsDrawn w + 1) * AsteroidMaxVelocity t - AsteroidMaxVelocity t / 2))
      0 (AsteroidRadius t) (w\<lparr>randomsDrawn := randomsDrawn w + 2\<rparr>))"
  have eq: "spawnChild t this w = push (fst (allocate child w3)) (snd (allocate child w3))"
    by (simp add: spawnChild_eq Let_def child_def w3_def allocate_def push_def)
  have "wellFormed w3"
    using assms by (simp add: w3_def)
  moreover have "gameWorldIndex child = length (gameWorldObjects w3)"
    by (simp add: child_def w3_def Asteroid_new_frame)
  ultimately show ?thesis
    unfolding eq by (rule wellFormed_push_new)
qed

lemma spawnChild_registry:
  "gameWorldObjects (spawnChild t this w) = gameWorldObjects w @ [allocated w]"
  "allocated (spawnChild t this w) = Suc (allocated w)"
  by (simp_all add: spawnChild_eq Let_def)

lemma wellFormed_explode:
  assumes "wellFormed w" and "a \<in> set (gameWorldObjects w)"
  shows "wellFormed (explode a w)"
proof -
  define w1 where "w1 = (if radius (objectStore w a) \<ge> AsteroidRadius MEDIUM then
           spawnChild MEDIUM a (spawnChild MEDIUM a (spawnChild MEDIUM a w))
         else if radius (objectStore w a) \<ge> AsteroidRadius SMALL then
           spawnChild SMALL a (spawnChild SMALL a (spawnChild SMALL a w))
         else w)"
  have eq: "explode a w = destroy a w1"
    unfolding explode_def Let_def w1_def by (rule refl)
  have "wellFormed w1"
    using assms(1) by (simp add: w1_def wellFormed_spawnChild del: AsteroidRadius.simps)
  moreover have "a \<in> set (gameWorldObjects w1)"
    using assms(2) by (simp add: w1_def spawnChild_registry del: AsteroidRadius.simps)
  ultimately show ?thesis
    unfolding eq by (rule wellFormed_destroy)
qed

lemma wellFormed_Ship_fire:
  assumes "wellFormed w"
  shows "wellFormed (Ship_fire this w)"
proof (cases "variant (objectStore w this)")
  case (Ship s)
  define w1 where "w1 = w\<lparr>clockReads := clockReads w + 1\<rparr>"
  define bullet where "bullet = Bullet_new (Vector (xc (position (objectStore w this)))
      (yc (position (objectStore w this)))) (angle (objectStore w this)) w1"
  define w3 where "w3 = push (fst (allocate bullet w1)) (snd (allocate bullet w1))"
  have w1: "wellFormed w1"
    using assms by (simp add: w1_def)
  have w3: "wellFormed w3"
    unfolding w3_def by (rule wellFormed_push_new [OF w1]) (simp add: bullet_def)
  define w4 where "w4 = w3\<lparr>clockReads := clockReads w3 + 1\<rparr>"
  have w4: "wellFormed w4"
    using w3 by (simp add: w4_def)
  have fired: "wellFormed (w4\<lparr>objectStore := (objectStore w4)
      (this := (objectStore w4 this)\<lparr>variant := Ship (s\<lparr>lastFired := t\<rparr>)\<rparr>)\<rparr>)" for t
    using w4 by (simp add: wellFormed_store)
  have "Ship_fire this w = w \<or> Ship_fire this w = w1 \<or>
      Ship_fire this w = w4\<lparr>objectStore := (objectStore w4)
        (this := (objectStore w4 this)\<lparr>variant := Ship (s\<lparr>lastFired := clockSource w (clockReads w + 1)\<rparr>)\<rparr>)\<rparr>"
    using Ship
    by (simp add: Ship_fire_def Date_now_def Let_def split_beta w1_def w4_def w3_def bullet_def
          allocate_def push_def)
  then show ?thesis
    using assms w1 fired by metis
next
  case (Bullet m)
  then show ?thesis using assms by (simp add: Ship_fire_def)
next
  case (Asteroid r)
  then show ?thesis using assms by (simp add: Ship_fire_def)
qed

lemmas example_defs =
  exampleWorld_def exampleShip_def exampleAsteroid_def exampleBullet_def exampleCanvas_def
  Vector_def upt_rec

lemma sqrt_less_iff: "(sqrt (a\<^sup>2 + b\<^sup>2) < c) = (0 < c \<and> a\<^sup>2 + b\<^sup>2 < c\<^sup>2)"
proof (cases "0 < c")
  case True
  then show ?thesis
    by (metis real_sqrt_less_iff real_sqrt_abs abs_of_pos)
next
  case False
  have "0 \<le> sqrt (a\<^sup>2 + b\<^sup>2)" by simp
  with False show ?thesis by linarith
qed

lemma collides_iff:
  "collides this asteroid =
     (0 < radius this * 0.9 + radius asteroid * 0.9 \<and>
      (xc (position this) - xc (position asteroid))\<^sup>2 +
      (yc (position this) - yc (position asteroid))\<^sup>2
        < (radius this * 0.9 + radius asteroid * 0.9)\<^sup>2)"
  by (simp add: collides_def distanceApart_def sqrt_less_iff)

lemmas eval_defs =
  GameWorldObject_update_def moveX_def moveY_def shiftX_def shiftY_def Let_def
  instanceof_Asteroid_def collides_iff decrementIndex_def destroy_def splice1_def
  power2_eq_square

text \<open>C10: the operations that change the registry keep every stored index equal to
  the position in the registry, in a world where that holds and every registered
  reference refers to a created object: creating and pushing the ship, firing,
  spawning a child asteroid, creating and pushing any asteroid, and \<open>destroy\<close> or
  \<open>explode\<close> called on an object of the registry.\<close>

theorem C10_gameWorldIndex_is_registry_position:
  "indexInvariant w \<and> registryAllocated w \<longrightarrow>
     (indexInvariant (createShip w) \<and> registryAllocated (createShip w)) \<and>
     (indexInvariant (Ship_fire s w) \<and> registryAllocated (Ship_fire s w)) \<and>
     (indexInvariant (spawnChild t a w) \<and> registryAllocated (spawnChild t a w)) \<and>
     (indexInvariant (push (fst (allocate (fst (Asteroid_new pos vel ang rad w)) (snd (Asteroid_new pos vel ang rad w))))
                           (snd (allocate (fst (Asteroid_new pos vel ang rad w)) (snd (Asteroid_new pos vel ang rad w)))))) \<and>
     (r \<in> set (gameWorldObjects w) \<longrightarrow>
        (indexInvariant (destroy r w) \<and> registryAllocated (destroy r w)) \<and>
        (indexInvariant (explode r w) \<and> registryAllocated (explode r w)))"
proof (intro impI conjI)
  assume h: "indexInvariant w \<and> registryAllocated w"
  then have wf: "wellFormed w" by (simp add: wellFormed_def)
  show "indexInvariant (createShip w)" "registryAllocated (createShip w)"
    using wellFormed_createShip [OF wf] by (simp_all add: wellFormed_def)
  show "indexInvariant (Ship_fire s w)" "registryAllocated (Ship_fire s w)"
    using wellFormed_Ship_fire [OF wf] by (simp_all add: wellFormed_def)
  show "indexInvariant (spawnChild t a w)" "registryAllocated (spawnChild t a w)"
    using wellFormed_spawnChild [OF wf] by (simp_all add: wellFormed_def)
  have "wellFormed (snd (Asteroid_new pos vel ang rad w))"
    using wf by (simp add: Asteroid_new_world)
  moreover have "gameWorldIndex (fst (Asteroid_new pos vel ang rad w))
      = length (gameWorldObjects (snd (Asteroid_new pos vel ang rad w)))"
    by (simp add: Asteroid_new_world Asteroid_new_frame)
  ultimately show "indexInvariant (push (fst (allocate (fst (Asteroid_new pos vel ang rad w)) (snd (Asteroid_new pos vel ang rad w))))
                           (snd (allocate (fst (Asteroid_new pos vel ang rad w)) (snd (Asteroid_new pos vel ang rad w)))))"
    using wellFormed_push_new wellFormed_def by blast
next
  assume h: "indexInvariant w \<and> registryAllocated w" and r: "r \<in> set (gameWorldObjects w)"
  then have wf: "wellFormed w" by (simp add: wellFormed_def)
  show "indexInvariant (destroy r w)" "registryAllocated (destroy r w)"
    using wellFormed_destroy [OF wf r] by (simp_all add: wellFormed_def)
  show "indexInvariant (explode r w)" "registryAllocated (explode r w)"
    using wellFormed_explode [OF wf r] by (simp_all add: wellFormed_def)
qed

theorem C10_gameWorldIndex_is_registry_position_witness:
  "indexInvariant wrapAndHitWorld \<and> registryAllocated wrapAndHitWorld \<and>
   2 \<in> set (gameWorldObjects wrapAndHitWorld) \<and>
   indexInvariant (destroy 2 wrapAndHitWorld) \<and>
   gameWorldObjects (destroy 2 wrapAndHitWorld) = [0, 1, 3] \<and>
   gameWorldIndex (objectStore (destroy 2 wrapAndHitWorld) 3) = 2 \<and>
   indexInvariant (explode 3 wrapAndHitWorld) \<and>
   indexInvariant (Ship_fire 0 wrapAndHitWorld) \<and>
   indexInvariant (createShip wrapAndHitWorld)"
proof -
  have h: "indexInvariant wrapAndHitWorld \<and> registryAllocated wrapAndHitWorld"
    by (simp add: indexInvariant_def registryAllocated_def wrapAndHitWorld_def example_defs)
  have m: "2 \<in> set (gameWorldObjects wrapAndHitWorld)" "3 \<in> set (gameWorldObjects wrapAndHitWorld)"
    by (simp_all add: wrapAndHitWorld_def example_defs)
  have d: "gameWorldObjects (destroy 2 wrapAndHitWorld) = [0, 1, 3]"
    "gameWorldIndex (objectStore (destroy 2 wrapAndHitWorld) 3) = 2"
    by (simp_all add: wrapAndHitWorld_def example_defs eval_defs)
  show ?thesis
    using h m d
      C10_gameWorldIndex_is_registry_position [of wrapAndHitWorld 0 _ _ _ _ _ _ 2]
      C10_gameWorldIndex_is_registry_position [of wrapAndHitWorld 0 _ _ _ _ _ _ 3]
    by simp
qed

section \<open>Asteroid tiers\<close>

lemma validRandom_fields [simp]:
  "validRandom (w\<lparr>randomsDrawn := n\<rparr>) = validRandom w"
  "validRandom (w\<lparr>objectStore := st\<rparr>) = validRandom w"
  "validRandom (w\<lparr>allocated := m\<rparr>) = validRandom w"
  "validRandom (w\<lparr>gameWorldObjects := xs\<rparr>) = validRandom w"
  by (simp_all add: validRandom_def)

lemma floor_sample_range:
  assumes "0 \<le> r" "r < 1" "mn < mx"
  shows "mn \<le> of_int \<lfloor>r * (mx - mn)\<rfloor> + mn \<and> of_int \<lfloor>r * (mx - mn)\<rfloor> + mn < (mx :: real)"
proof -
  have a: "0 \<le> r * (mx - mn)" using assms by simp
  have b: "r * (mx - mn) < mx - mn" using assms by simp
  have "0 \<le> \<lfloor>r * (mx - mn)\<rfloor>" using a by simp
  moreover have "of_int \<lfloor>r * (mx - mn)\<rfloor> \<le> r * (mx - mn)" by simp
  ultimately show ?thesis using b by linarith
qed

lemma createGeometry_radius:
  assumes "validRandom w" "mn < mx" "0 < n"
  shows "mn \<le> radius (fst (createGeometry n ang mn mx (e, w))) \<and>
         radius (fst (createGeometry n ang mn mx (e, w))) < mx"
  using assms
proof (induction n arbitrary: ang e w)
  case 0
  then show ?case by simp
next
  case (Suc n)
  define r where "r = randomSource w (Suc (randomsDrawn w))"
  have r: "0 \<le> r" "r < 1" using Suc.prems(1) by (simp_all add: validRandom_def r_def)
  show ?case
  proof (cases "n = 0")
    case True
    then show ?thesis
      using floor_sample_range [OF r Suc.prems(2)]
      by (simp add: Math_random_def Let_def r_def)
  next
    case False
    then show ?thesis
      using Suc.IH [of "w\<lparr>randomsDrawn := Suc (Suc (randomsDrawn w))\<rparr>"] Suc.prems
      by (simp add: Math_random_def Let_def)
  qed
qed

lemma Asteroid_new_radius:
  assumes "validRandom w" "0 < rad"
  shows "rad * 3 / 4 \<le> radius (fst (Asteroid_new pos vel ang rad w)) \<and>
         radius (fst (Asteroid_new pos vel ang rad w)) < rad"
proof -
  have "rad * 3 / 4 < rad" using assms(2) by simp
  then show ?thesis
    using assms createGeometry_radius [of "w\<lparr>randomsDrawn := Suc (randomsDrawn w)\<rparr>" "rad * 3 / 4" rad granularity]
    by (simp add: Asteroid_new_def Math_random_def Let_def GameWorldObject_new_def granularity_def)
qed

lemma Asteroid_new_inTier:
  assumes "validRandom w"
  shows "inTier t (fst (Asteroid_new pos vel ang (AsteroidRadius t) w))"
proof -
  have "0 < AsteroidRadius t" by (cases t) simp_all
  from Asteroid_new_radius [OF assms this] show ?thesis
    by (simp add: inTier_def instanceof_Asteroid_def Asteroid_new_frame)
qed

lemma fold_decrementIndex_frame [simp]:
  "position (fold decrementIndex rs store r) = position (store r)"
  "velocity (fold decrementIndex rs store r) = velocity (store r)"
  "angle (fold decrementIndex rs store r) = angle (store r)"
  "radius (fold decrementIndex rs store r) = radius (store r)"
  "geometry (fold decrementIndex rs store r) = geometry (store r)"
  "timesWarped (fold decrementIndex rs store r) = timesWarped (store r)"
  by (induction rs arbitrary: store; simp add: decrementIndex_def)+

lemma destroy_frame [simp]:
  "variant (objectStore (destroy this w) r) = variant (objectStore w r)"
  "position (objectStore (destroy this w) r) = position (objectStore w r)"
  "velocity (objectStore (destroy this w) r) = velocity (objectStore w r)"
  "angle (objectStore (destroy this w) r) = angle (objectStore w r)"
  "radius (objectStore (destroy this w) r) = radius (objectStore w r)"
  "timesWarped (objectStore (destroy this w) r) = timesWarped (objectStore w r)"
  "score (destroy this w) = score w"
  "gameState (destroy this w) = gameState w"
  by (simp_all add: destroy_def Let_def)

lemma inTier_destroy [simp]:
  "inTier t (objectStore (destroy this w) r) = inTier t (objectStore w r)"
  by (simp add: inTier_def instanceof_Asteroid_def)

lemma Vector_eta [simp]: "Vector (xc p) (yc p) = p"
  by (simp add: Vector_def)

text \<open>What one iteration of a spawning loop does.\<close>

lemma spawnChild_effect:
  assumes "validRandom w" and "this \<noteq> allocated w"
  shows "gameWorldObjects (spawnChild t this w) = gameWorldObjects w @ [allocated w]"
    and "allocated (spawnChild t this w) = Suc (allocated w)"
    and "validRandom (spawnChild t this w)"
    and "inTier t (objectStore (spawnChild t this w) (allocated w))"
    and "position (objectStore (spawnChild t this w) (allocated w)) = position (objectStore w this)"
    and "angle (objectStore (spawnChild t this w) (allocated w)) = 0"
    and "\<And>r. r \<noteq> allocated w \<Longrightarrow> objectStore (spawnChild t this w) r = objectStore w r"
    and "score (spawnChild t this w) = score w"
  using assms Asteroid_new_inTier [of "w\<lparr>randomsDrawn := randomsDrawn w + 2\<rparr>" t]
  by (simp_all add: spawnChild_eq Let_def Asteroid_new_frame)

lemma spawnChild_store:
  "r \<noteq> allocated w \<Longrightarrow> objectStore (spawnChild t this w) r = objectStore w r"
  by (simp add: spawnChild_eq Let_def)

lemma spawnChild_validRandom [simp]: "validRandom (spawnChild t this w) = validRandom w"
  by (simp add: spawnChild_eq Let_def validRandom_def)

lemma spawnChild_score [simp]: "score (spawnChild t this w) = score w"
  by (simp add: spawnChild_eq Let_def)

lemma splice1_append: "k < length xs \<Longrightarrow> splice1 k (xs @ ys) = splice1 k xs @ ys"
  by (simp add: splice1_def)

lemma splice1_remove1:
  assumes "distinct xs" "k < length xs"
  shows "splice1 k xs = remove1 (xs ! k) xs"
proof -
  have xs: "xs = take k xs @ xs ! k # drop (Suc k) xs"
    using assms(2) by (simp add: id_take_nth_drop [symmetric])
  have "distinct (take k xs @ xs ! k # drop (Suc k) xs)"
    using assms(1) xs by simp
  then have "xs ! k \<notin> set (take k xs)" by auto
  then have "remove1 (xs ! k) (take k xs @ xs ! k # drop (Suc k) xs) = take k xs @ drop (Suc k) xs"
    by (simp add: remove1_append)
  with xs show ?thesis by (simp add: splice1_def)
qed

text \<open>The three iterations of a spawning loop.\<close>

lemma spawn3_effect:
  fixes w :: world and t :: tier and a :: nat
  defines "w3 \<equiv> spawnChild t a (spawnChild t a (spawnChild t a w))"
  assumes vr: "validRandom w" and a: "a < allocated w"
  shows "gameWorldObjects w3 = gameWorldObjects w @ [allocated w, allocated w + 1, allocated w + 2]"
    and "allocated w3 = allocated w + 3"
    and "\<And>r. r < allocated w \<Longrightarrow> objectStore w3 r = objectStore w r"
    and "\<And>c. c \<in> {allocated w, allocated w + 1, allocated w + 2} \<Longrightarrow>
           inTier t (objectStore w3 c) \<and> position (objectStore w3 c) = position (objectStore w a) \<and>
           angle (objectStore w3 c) = 0"
    and "score w3 = score w"
proof -
  define w1 where "w1 = spawnChild t a w"
  define w2 where "w2 = spawnChild t a w1"
  have w3: "w3 = spawnChild t a w2" by (simp add: w3_def w2_def w1_def)
  have al: "allocated w1 = Suc (allocated w)" "allocated w2 = Suc (Suc (allocated w))"
    "allocated w3 = Suc (Suc (Suc (allocated w)))"
    by (simp_all add: w3 w2_def w1_def spawnChild_registry)
  have v: "validRandom w1" "validRandom w2"
    using vr by (simp_all add: w2_def w1_def)
  have ne: "a \<noteq> allocated w" "a \<noteq> allocated w1" "a \<noteq> allocated w2"
    using a al by simp_all
  show "gameWorldObjects w3 = gameWorldObjects w @ [allocated w, allocated w + 1, allocated w + 2]"
    by (simp add: w3 w2_def w1_def spawnChild_registry)
  show "allocated w3 = allocated w + 3" using al by simp
  show old: "objectStore w3 r = objectStore w r" if "r < allocated w" for r
    using that al by (simp add: w3 w2_def w1_def spawnChild_store)
  have pa: "position (objectStore w1 a) = position (objectStore w a)"
    "position (objectStore w2 a) = position (objectStore w a)"
    using ne al by (simp_all add: w2_def w1_def spawnChild_store)
  have c1: "inTier t (objectStore w1 (allocated w)) \<and>
      position (objectStore w1 (allocated w)) = position (objectStore w a) \<and>
      angle (objectStore w1 (allocated w)) = 0"
    unfolding w1_def using spawnChild_effect(4,5,6) [OF vr ne(1)] by simp
  have c2: "inTier t (objectStore w2 (allocated w1)) \<and>
      position (objectStore w2 (allocated w1)) = position (objectStore w a) \<and>
      angle (objectStore w2 (allocated w1)) = 0"
    unfolding w2_def using spawnChild_effect(4,5,6) [OF v(1) ne(2)] pa(1) by simp
  have c3: "inTier t (objectStore w3 (allocated w2)) \<and>
      position (objectStore w3 (allocated w2)) = position (objectStore w a) \<and>
      angle (objectStore w3 (allocated w2)) = 0"
    unfolding w3 using spawnChild_effect(4,5,6) [OF v(2) ne(3)] pa(2) by simp
  have k1: "objectStore w3 (allocated w) = objectStore w1 (allocated w)"
    using al by (simp add: w3 w2_def spawnChild_store)
  have k2: "objectStore w3 (allocated w1) = objectStore w2 (allocated w1)"
    using al by (simp add: w3 spawnChild_store)
  show "inTier t (objectStore w3 c) \<and> position (objectStore w3 c) = position (objectStore w a) \<and>
           angle (objectStore w3 c) = 0"
    if "c \<in> {allocated w, allocated w + 1, allocated w + 2}" for c
    using that c1 c2 c3 k1 k2 al by auto
  show "score w3 = score w" by (simp add: w3_def)
qed

lemma destroy_registered:
  assumes "indexInvariant w" and "a \<in> set (gameWorldObjects w)"
  shows "gameWorldObjects (destroy a w) = remove1 a (gameWorldObjects w)"
  using indexInvariant_member [OF assms] indexInvariant_distinct [OF assms(1)]
  by (simp add: destroy_registry splice1_remove1)

lemma explode_cases:
  "explode a w = destroy a
     (if radius (objectStore w a) \<ge> AsteroidRadius MEDIUM then
        spawnChild MEDIUM a (spawnChild MEDIUM a (spawnChild MEDIUM a w))
      else if radius (objectStore w a) \<ge> AsteroidRadius SMALL then
        spawnChild SMALL a (spawnChild SMALL a (spawnChild SMALL a w))
      else w)"
  unfolding explode_def Let_def by (rule refl)

lemma wellFormed_spawn3:
  "wellFormed w \<Longrightarrow> wellFormed (spawnChild t a (spawnChild t a (spawnChild t a w)))"
  by (simp add: wellFormed_spawnChild)

lemma explode_registry:
  assumes wf: "wellFormed w" and vr: "validRandom w" and a: "a \<in> set (gameWorldObjects w)"
  shows "gameWorldObjects (explode a w) =
     remove1 a (gameWorldObjects w) @
       (if radius (objectStore w a) \<ge> AsteroidRadius SMALL
        then [allocated w, allocated w + 1, allocated w + 2] else [])"
proof -
  have al: "a < allocated w"
    using wf a by (simp add: wellFormed_def registryAllocated_iff)
  have notin: "a \<notin> set [allocated w, allocated w + 1, allocated w + 2]"
    using al by simp
  have sp: "gameWorldObjects (destroy a (spawnChild t a (spawnChild t a (spawnChild t a w))))
      = remove1 a (gameWorldObjects w) @ [allocated w, allocated w + 1, allocated w + 2]" for t
  proof -
    have "wellFormed (spawnChild t a (spawnChild t a (spawnChild t a w)))"
      by (rule wellFormed_spawn3 [OF wf])
    then have "gameWorldObjects (destroy a (spawnChild t a (spawnChild t a (spawnChild t a w))))
      = remove1 a (gameWorldObjects (spawnChild t a (spawnChild t a (spawnChild t a w))))"
      using a by (intro destroy_registered) (simp_all add: wellFormed_def spawn3_effect(1) [OF vr al])
    then show ?thesis
      using a by (simp add: spawn3_effect(1) [OF vr al] remove1_append del: remove1.simps)
  qed
  have "gameWorldObjects (destroy a w) = remove1 a (gameWorldObjects w)"
    using wf a by (simp add: destroy_registered wellFormed_def)
  with sp show ?thesis
    by (simp add: explode_cases del: remove1.simps)
qed

text \<open>C5: an asteroid built with the nominal radius of a tier is in that tier. Exploding
  a registered asteroid of the large tier puts exactly three new asteroids of the
  medium tier behind the rest of the registry, each at the position of the exploding
  asteroid and with angle 0; exploding one of the small tier adds nothing. In every
  branch the exploding asteroid leaves the registry.\<close>

theorem C5_explode_spawns_and_removes:
  "indexInvariant w \<and> registryAllocated w \<and> validRandom w \<and> a \<in> set (gameWorldObjects w) \<longrightarrow>
     inTier t (fst (Asteroid_new pos vel ang (AsteroidRadius t) w)) \<and>
     a \<notin> set (gameWorldObjects (explode a w)) \<and>
     (inTier LARGE (objectStore w a) \<longrightarrow>
        gameWorldObjects (explode a w) =
          remove1 a (gameWorldObjects w) @ [allocated w, allocated w + 1, allocated w + 2] \<and>
        list_all (\<lambda>c. c \<notin> set (gameWorldObjects w) \<and>
                      inTier MEDIUM (objectStore (explode a w) c) \<and>
                      position (objectStore (explode a w) c) = position (objectStore w a) \<and>
                      angle (objectStore (explode a w) c) = 0)
          [allocated w, allocated w + 1, allocated w + 2]) \<and>
     (inTier SMALL (objectStore w a) \<longrightarrow>
        gameWorldObjects (explode a w) = remove1 a (gameWorldObjects w))"
proof (intro impI)
  assume h: "indexInvariant w \<and> registryAllocated w \<and> validRandom w \<and> a \<in> set (gameWorldObjects w)"
  then have wf: "wellFormed w" and vr: "validRandom w" and a: "a \<in> set (gameWorldObjects w)"
    by (simp_all add: wellFormed_def)
  have al: "a < allocated w"
    using h by (simp add: registryAllocated_iff)
  have fresh: "c \<notin> set (gameWorldObjects w)" if "allocated w \<le> c" for c
    using h that by (auto simp add: registryAllocated_iff)
  have d: "distinct (gameWorldObjects w)"
    using h by (simp add: indexInvariant_distinct)
  have reg: "gameWorldObjects (explode a w) =
     remove1 a (gameWorldObjects w) @
       (if radius (objectStore w a) \<ge> AsteroidRadius SMALL
        then [allocated w, allocated w + 1, allocated w + 2] else [])"
    by (rule explode_registry [OF wf vr a])
  have gone: "a \<notin> set (gameWorldObjects (explode a w))"
    using d al by (simp add: reg)
  have large: "gameWorldObjects (explode a w) =
          remove1 a (gameWorldObjects w) @ [allocated w, allocated w + 1, allocated w + 2] \<and>
        list_all (\<lambda>c. c \<notin> set (gameWorldObjects w) \<and>
                      inTier MEDIUM (objectStore (explode a w) c) \<and>
                      position (objectStore (explode a w) c) = position (objectStore w a) \<and>
                      angle (objectStore (explode a w) c) = 0)
          [allocated w, allocated w + 1, allocated w + 2]"
    if "inTier LARGE (objectStore w a)"
  proof -
    from that have r: "radius (objectStore w a) \<ge> AsteroidRadius MEDIUM"
      by (simp add: inTier_def)
    then have ex: "explode a w =
        destroy a (spawnChild MEDIUM a (spawnChild MEDIUM a (spawnChild MEDIUM a w)))"
      by (simp add: explode_cases del: AsteroidRadius.simps)
    have "inTier MEDIUM (objectStore (explode a w) c) \<and>
          position (objectStore (explode a w) c) = position (objectStore w a) \<and>
          angle (objectStore (explode a w) c) = 0"
      if "c \<in> {allocated w, allocated w + 1, allocated w + 2}" for c
      using spawn3_effect(4) [OF vr al that, of MEDIUM] by (simp add: ex)
    then show ?thesis
      using r fresh by (simp add: reg)
  qed
  have small: "gameWorldObjects (explode a w) = remove1 a (gameWorldObjects w)"
    if "inTier SMALL (objectStore w a)"
    using that by (simp add: reg inTier_def)
  show "inTier t (fst (Asteroid_new pos vel ang (AsteroidRadius t) w)) \<and>
     a \<notin> set (gameWorldObjects (explode a w)) \<and>
     (inTier LARGE (objectStore w a) \<longrightarrow>
        gameWorldObjects (explode a w) =
          remove1 a (gameWorldObjects w) @ [allocated w, allocated w + 1, allocated w + 2] \<and>
        list_all (\<lambda>c. c \<notin> set (gameWorldObjects w) \<and>
                      inTier MEDIUM (objectStore (explode a w) c) \<and>
                      position (objectStore (explode a w) c) = position (objectStore w a) \<and>
                      angle (objectStore (explode a w) c) = 0)
          [allocated w, allocated w + 1, allocated w + 2]) \<and>
     (inTier SMALL (objectStore w a) \<longrightarrow>
        gameWorldObjects (explode a w) = remove1 a (gameWorldObjects w))"
    using Asteroid_new_inTier [OF vr] gone large small by blast
qed

theorem C5_explode_spawns_and_removes_witness:
  "inTier LARGE (objectStore wrapAndHitWorld 3) \<and>
   gameWorldObjects (explode 3 wrapAndHitWorld) = [0, 1, 2, 4, 5, 6] \<and>
   inTier MEDIUM (objectStore (explode 3 wrapAndHitWorld) 4) \<and>
   position (objectStore (explode 3 wrapAndHitWorld) 5) = Vector 600 500 \<and>
   angle (objectStore (explode 3 wrapAndHitWorld) 6) = 0 \<and>
   inTier SMALL (objectStore wrapAndHitWorld 1) \<and>
   gameWorldObjects (explode 1 wrapAndHitWorld) = [0, 2, 3]"
proof -
  have h: "indexInvariant wrapAndHitWorld \<and> registryAllocated wrapAndHitWorld \<and>
      validRandom wrapAndHitWorld"
    by (simp add: indexInvariant_def registryAllocated_def validRandom_def wrapAndHitWorld_def
          example_defs)
  have m: "3 \<in> set (gameWorldObjects wrapAndHitWorld)" "1 \<in> set (gameWorldObjects wrapAndHitWorld)"
    by (simp_all add: wrapAndHitWorld_def example_defs)
  have t: "inTier LARGE (objectStore wrapAndHitWorld 3)" "inTier SMALL (objectStore wrapAndHitWorld 1)"
    by (simp_all add: inTier_def instanceof_Asteroid_def wrapAndHitWorld_def example_defs)
  have g: "gameWorldObjects wrapAndHitWorld = [0, 1, 2, 3]" "allocated wrapAndHitWorld = 4"
    "position (objectStore wrapAndHitWorld 3) = Vector 600 500"
    by (simp_all add: wrapAndHitWorld_def example_defs)
  show ?thesis
    using h m t
      C5_explode_spawns_and_removes [of wrapAndHitWorld 3]
      C5_explode_spawns_and_removes [of wrapAndHitWorld 1]
    by (simp add: g)
qed

section \<open>Scoring\<close>

lemma firstCollision_Some:
  "firstCollision store this rs = Some a \<Longrightarrow>
     a \<in> set rs \<and> instanceof_Asteroid (store a) \<and> collides this (store a)"
  by (induction rs) (auto split: if_splits)

lemma hitPoints_inTier: "inTier t a \<Longrightarrow> hitPoints a = AsteroidScore t"
  by (cases t) (auto simp add: inTier_def hitPoints_def)

lemma explode_score [simp]: "score (explode a w) = score w"
  by (simp add: explode_cases del: AsteroidRadius.simps)

lemma spawn3_store:
  "r < allocated w \<Longrightarrow>
     objectStore (spawnChild t a (spawnChild t a (spawnChild t a w))) r = objectStore w r"
  by (simp add: spawnChild_store spawnChild_registry)

lemma explode_radius:
  "a < allocated w \<Longrightarrow> radius (objectStore (explode a w) a) = radius (objectStore w a)"
  by (simp add: explode_cases spawn3_store del: AsteroidRadius.simps)

lemma Bullet_update_score_hit:
  assumes al: "registryAllocated w"
    and hit: "firstCollision ((objectStore w)(this := GameWorldObject_update (canvas w) (objectStore w this)))
                (GameWorldObject_update (canvas w) (objectStore w this)) (gameWorldObjects w) = Some a"
  shows "score (Bullet_update this w) = score w + hitPoints (objectStore w a)"
proof -
  define e where "e = GameWorldObject_update (canvas w) (objectStore w this)"
  define w1 where "w1 = w\<lparr>objectStore := (objectStore w)(this := e)\<rparr>"
  define w4 where "w4 = addToScore (hitPoints (objectStore (explode a w1) a)) (explode a w1)"
  have "a \<in> set (gameWorldObjects w)"
    using firstCollision_Some [OF hit] by simp
  then have a: "a < allocated w1"
    using al by (simp add: registryAllocated_iff w1_def)
  have "radius (objectStore w1 a) = radius (objectStore w a)"
    by (simp add: w1_def e_def)
  then have "hitPoints (objectStore (explode a w1) a) = hitPoints (objectStore w a)"
    using explode_radius [OF a] by (simp add: hitPoints_def)
  then have s4: "score w4 = score w + hitPoints (objectStore w a)"
    by (simp add: w4_def addToScore_def w1_def)
  have hit1: "firstCollision (objectStore w1) e (gameWorldObjects w1) = Some a"
    using hit by (simp add: w1_def e_def)
  have "Bullet_update this w =
      (if timesWarped (objectStore (destroy this w4) this) \<ge> 1
       then destroy this (destroy this w4) else destroy this w4)"
    unfolding Bullet_update_def Let_def w4_def
    unfolding w1_def [symmetric] e_def [symmetric] w1_def [symmetric]
    by (simp only: hit1 option.case)
  then show ?thesis
    using s4 by simp
qed

text \<open>C6: the points for a hit follow the tier of the asteroid: 20, 50 and 100. On every
  asteroid that a constructor builds, the comparisons of the scoring (\<open>>\<close>) and those
  of \<open>explode\<close> (\<open>>=\<close>) agree. A bullet that hits adds exactly these points to the
  score, and one hit of each tier, in any order, takes the score from 0 to 170.\<close>

theorem C6_points_by_tier:
  "(inTier t a \<longrightarrow>
      hitPoints a = AsteroidScore t \<and>
      ((AsteroidRadius MEDIUM < radius a) = (AsteroidRadius MEDIUM \<le> radius a)) \<and>
      ((AsteroidRadius SMALL < radius a) = (AsteroidRadius SMALL \<le> radius a))) \<and>
   (registryAllocated w \<and> inTier t (objectStore w target) \<and>
    firstCollision ((objectStore w)(this := GameWorldObject_update (canvas w) (objectStore w this)))
      (GameWorldObject_update (canvas w) (objectStore w this)) (gameWorldObjects w) = Some target \<longrightarrow>
      score (Bullet_update this w) = score w + AsteroidScore t) \<and>
   (inTier LARGE aL \<and> inTier MEDIUM aM \<and> inTier SMALL aS \<and>
    hits \<in> {[aL, aM, aS], [aL, aS, aM], [aM, aL, aS], [aM, aS, aL], [aS, aL, aM], [aS, aM, aL]} \<longrightarrow>
      score (fold (\<lambda>asteroid. addToScore (hitPoints asteroid)) hits (w\<lparr>score := 0\<rparr>)) = 170)"
proof (intro conjI impI)
  assume "inTier t a"
  then show "hitPoints a = AsteroidScore t"
    "(AsteroidRadius MEDIUM < radius a) = (AsteroidRadius MEDIUM \<le> radius a)"
    "(AsteroidRadius SMALL < radius a) = (AsteroidRadius SMALL \<le> radius a)"
    by (cases t; auto simp add: inTier_def hitPoints_def)+
next
  assume "registryAllocated w \<and> inTier t (objectStore w target) \<and>
    firstCollision ((objectStore w)(this := GameWorldObject_update (canvas w) (objectStore w this)))
      (GameWorldObject_update (canvas w) (objectStore w this)) (gameWorldObjects w) = Some target"
  then show "score (Bullet_update this w) = score w + AsteroidScore t"
    using Bullet_update_score_hit [of w this target] hitPoints_inTier [of t "objectStore w target"]
    by simp
next
  assume "inTier LARGE aL \<and> inTier MEDIUM aM \<and> inTier SMALL aS \<and>
    hits \<in> {[aL, aM, aS], [aL, aS, aM], [aM, aL, aS], [aM, aS, aL], [aS, aL, aM], [aS, aM, aL]}"
  then show "score (fold (\<lambda>asteroid. addToScore (hitPoints asteroid)) hits (w\<lparr>score := 0\<rparr>)) = 170"
    using hitPoints_inTier [of LARGE aL] hitPoints_inTier [of MEDIUM aM] hitPoints_inTier [of SMALL aS]
    by (auto simp add: addToScore_def)
qed

theorem C6_points_by_tier_witness:
  "hitPoints (exampleAsteroid 1 70 (Vector 600 500) (Vector 1 1)) = 20 \<and>
   hitPoints (exampleAsteroid 2 35 (Vector 100 100) (Vector 1 1)) = 50 \<and>
   hitPoints (exampleAsteroid 3 15 (Vector 5 100) (Vector 0 0)) = 100 \<and>
   score (Bullet_update 2 wrapAndHitWorld) = 100 \<and>
   score (fold (\<lambda>asteroid. addToScore (hitPoints asteroid))
            [exampleAsteroid 3 15 (Vector 5 100) (Vector 0 0),
             exampleAsteroid 1 70 (Vector 600 500) (Vector 1 1),
             exampleAsteroid 2 35 (Vector 100 100) (Vector 1 1)]
            (wrapAndHitWorld\<lparr>score := 0\<rparr>)) = 170"
proof -
  let ?aL = "exampleAsteroid 1 70 (Vector 600 500) (Vector 1 1)"
  let ?aM = "exampleAsteroid 2 35 (Vector 100 100) (Vector 1 1)"
  let ?aS = "exampleAsteroid 3 15 (Vector 5 100) (Vector 0 0)"
  have t: "inTier LARGE ?aL" "inTier MEDIUM ?aM" "inTier SMALL ?aS"
    by (simp_all add: inTier_def instanceof_Asteroid_def exampleAsteroid_def)
  have w: "registryAllocated wrapAndHitWorld" "inTier SMALL (objectStore wrapAndHitWorld 1)"
    "score wrapAndHitWorld = 0"
    by (simp_all add: registryAllocated_def inTier_def instanceof_Asteroid_def
          wrapAndHitWorld_def example_defs)
  have f: "firstCollision ((objectStore wrapAndHitWorld)
        (2 := GameWorldObject_update (canvas wrapAndHitWorld) (objectStore wrapAndHitWorld 2)))
      (GameWorldObject_update (canvas wrapAndHitWorld) (objectStore wrapAndHitWorld 2))
      (gameWorldObjects wrapAndHitWorld) = Some 1"
    by (simp add: wrapAndHitWorld_def example_defs eval_defs)
  have p1: "hitPoints ?aL = 20"
    using t(1) C6_points_by_tier [of LARGE ?aL] by simp
  have p2: "hitPoints ?aM = 50"
    using t(2) C6_points_by_tier [of MEDIUM ?aM] by simp
  have p3: "hitPoints ?aS = 100"
    using t(3) C6_points_by_tier [of SMALL ?aS] by simp
  have p4: "score (Bullet_update 2 wrapAndHitWorld) = 100"
    using w f C6_points_by_tier [of SMALL _ wrapAndHitWorld 1 2] by simp
  have p5: "score (fold (\<lambda>asteroid. addToScore (hitPoints asteroid)) [?aS, ?aL, ?aM]
      (wrapAndHitWorld\<lparr>score := 0\<rparr>)) = 170"
    using t C6_points_by_tier [of _ _ wrapAndHitWorld _ _ ?aL ?aM ?aS "[?aS, ?aL, ?aM]"]
    by blast
  show ?thesis
    using p1 p2 p3 p4 p5 by blast
qed

section \<open>Bullets\<close>

text \<open>A bullet that neither wraps nor hits stays in the registry: its update only
  moves it.\<close>

lemma Bullet_update_only_moves:
  assumes "timesWarped (GameWorldObject_update (canvas w) (objectStore w this)) = 0"
    and "firstCollision ((objectStore w)(this := GameWorldObject_update (canvas w) (objectStore w this)))
           (GameWorldObject_update (canvas w) (objectStore w this)) (gameWorldObjects w) = None"
  shows "Bullet_update this w =
     w\<lparr>objectStore := (objectStore w)(this := GameWorldObject_update (canvas w) (objectStore w this))\<rparr>"
  using assms by (simp add: Bullet_update_def Let_def)

text \<open>A registered bullet that has wrapped and hits nothing is removed, and nothing
  else is.\<close>

lemma Bullet_update_expires:
  assumes "indexInvariant w" and "this \<in> set (gameWorldObjects w)"
    and "timesWarped (GameWorldObject_update (canvas w) (objectStore w this)) \<ge> 1"
    and "firstCollision ((objectStore w)(this := GameWorldObject_update (canvas w) (objectStore w this)))
           (GameWorldObject_update (canvas w) (objectStore w this)) (gameWorldObjects w) = None"
  shows "gameWorldObjects (Bullet_update this w) = remove1 this (gameWorldObjects w)"
proof -
  define w1 where "w1 = w\<lparr>objectStore := (objectStore w)
      (this := GameWorldObject_update (canvas w) (objectStore w this))\<rparr>"
  have "indexInvariant w1"
    using assms(1) by (auto simp add: w1_def indexInvariant_iff)
  moreover have "this \<in> set (gameWorldObjects w1)"
    using assms(2) by (simp add: w1_def)
  ultimately have "gameWorldObjects (destroy this w1) = remove1 this (gameWorldObjects w1)"
    by (rule destroy_registered)
  moreover have "Bullet_update this w = destroy this w1"
    using assms(3,4) by (simp add: Bullet_update_def Let_def w1_def)
  ultimately show ?thesis by (simp add: w1_def)
qed

text \<open>C4: when a bullet wraps and hits in the same update, \<open>destroy\<close> runs twice. The
  bullet is at registry position 2, the small asteroid it hits at position 1, a large
  asteroid far away at position 3. The second \<open>destroy\<close> splices at the index the
  bullet had when it was removed, which is by then the position of the large asteroid:
  that asteroid leaves the registry although nothing hit it.\<close>

theorem C4_double_destroy_removes_another_object:
  "gameWorldObjects wrapAndHitWorld = [0, 1, 2, 3] \<and>
   instanceof_Bullet (objectStore wrapAndHitWorld 2) \<and>
   instanceof_Asteroid (objectStore wrapAndHitWorld 3) \<and>
   timesWarped (GameWorldObject_update (canvas wrapAndHitWorld) (objectStore wrapAndHitWorld 2)) = 1 \<and>
   firstCollision ((objectStore wrapAndHitWorld)
        (2 := GameWorldObject_update (canvas wrapAndHitWorld) (objectStore wrapAndHitWorld 2)))
      (GameWorldObject_update (canvas wrapAndHitWorld) (objectStore wrapAndHitWorld 2))
      (gameWorldObjects wrapAndHitWorld) = Some 1 \<and>
   gameWorldObjects (Bullet_update 2 wrapAndHitWorld) = [0] \<and>
   isWinConditionMet (Bullet_update 2 wrapAndHitWorld)"
  by (simp add: wrapAndHitWorld_def example_defs eval_defs instanceof_Bullet_def
        Bullet_update_def explode_def hitPoints_def addToScore_def isWinConditionMet_def)

section \<open>The tick\<close>

lemma registryStep_set_drop:
  assumes "registryStep w w'"
  shows "set (drop j (gameWorldObjects w')) \<subseteq>
     set (drop j (gameWorldObjects w)) \<union> {allocated w ..< allocated w'}"
proof -
  have "subseq (drop j (gameWorldObjects w')) (drop j (gameWorldObjects w) @ [allocated w ..< allocated w'])"
    using assms by (simp add: registryStep_def)
  from subseq_set [OF this] show ?thesis by simp
qed

lemma registryStep_allocated:
  assumes "registryStep w w'" and "registryAllocated w"
  shows "registryAllocated w'"
proof -
  have le: "allocated w \<le> allocated w'"
    using assms(1) by (simp add: registryStep_def)
  have "set (gameWorldObjects w') \<subseteq> set (gameWorldObjects w) \<union> {allocated w ..< allocated w'}"
    using registryStep_set_drop [OF assms(1), of 0] by simp
  with assms(2) le show ?thesis
    by (fastforce simp add: registryAllocated_iff)
qed

lemma registryStep_distinct:
  assumes "registryStep w w'" and "registryAllocated w" and "distinct (gameWorldObjects w)"
  shows "distinct (gameWorldObjects w')"
proof -
  have "subseq (gameWorldObjects w') (gameWorldObjects w @ [allocated w ..< allocated w'])"
    using assms(1) by (simp add: registryStep_def) (metis drop0)
  moreover have "distinct (gameWorldObjects w @ [allocated w ..< allocated w'])"
    using assms(2,3) by (auto simp add: registryAllocated_iff)
  ultimately show ?thesis by (rule subseq_distinct)
qed

lemma registryStep_le: "registryStep w w' \<Longrightarrow> allocated w \<le> allocated w'"
  by (simp add: registryStep_def)

lemma updateLoop_unfold:
  "updateLoop i visited w =
     (if i < length (gameWorldObjects w) then
        updateLoop (Suc i) (visited @ [gameWorldObjects w ! i]) (update (gameWorldObjects w ! i) w)
      else (visited, w))"
  by (subst updateLoop.simps) simp

lemma updateLoop_allocated:
  "allocated w \<le> allocated (snd (updateLoop i vs w))"
proof (induction i vs w rule: updateLoop.induct)
  case (1 i vs w)
  show ?case
  proof (cases "i < length (gameWorldObjects w)")
    case True
    have "allocated w \<le> allocated (update (gameWorldObjects w ! i) w)"
      by (rule registryStep_le [OF registryStep_update])
    also have "\<dots> \<le> allocated (snd (updateLoop (i + 1) (vs @ [gameWorldObjects w ! i])
        (update (gameWorldObjects w ! i) w)))"
      by (rule "1.IH" [OF True])
    finally show ?thesis
      using True by (subst updateLoop_unfold) simp
  next
    case False
    then show ?thesis by (subst updateLoop_unfold) simp
  qed
qed

lemma upt_split: "a0 \<le> a \<Longrightarrow> a \<le> a' \<Longrightarrow> [a0 ..< a'] = [a0 ..< a] @ [a ..< (a'::nat)]"
  by (metis le_Suc_ex upt_add_eq_append)

lemma updateLoop_registryStep: "registryStep w (snd (updateLoop i vs w))"
proof (induction i vs w rule: updateLoop.induct)
  case (1 i vs w)
  show ?case
  proof (cases "i < length (gameWorldObjects w)")
    case True
    have "registryStep w (snd (updateLoop (i + 1) (vs @ [gameWorldObjects w ! i])
        (update (gameWorldObjects w ! i) w)))"
      by (rule registryStep_trans [OF registryStep_update "1.IH" [OF True]])
    then show ?thesis
      using True by (subst updateLoop_unfold) simp
  next
    case False
    then show ?thesis by (subst updateLoop_unfold) simp
  qed
qed

lemma updateLoop_order:
  assumes "subseq (vs @ drop i (gameWorldObjects w)) (base @ [a0 ..< allocated w])"
    and "a0 \<le> allocated w"
  shows "subseq (fst (updateLoop i vs w)) (base @ [a0 ..< allocated (snd (updateLoop i vs w))])"
  using assms
proof (induction i vs w rule: updateLoop.induct)
  case (1 i vs w)
  show ?case
  proof (cases "i < length (gameWorldObjects w)")
    case False
    then show ?thesis
      using "1.prems" by (subst (1 2) updateLoop_unfold) simp
  next
    case True
    let ?r = "gameWorldObjects w ! i"
    let ?w' = "update ?r w"
    have step: "registryStep w ?w'" by (rule registryStep_update)
    have le: "allocated w \<le> allocated ?w'" by (rule registryStep_le [OF step])
    have sub: "subseq (drop (i + 1) (gameWorldObjects ?w'))
        (drop (i + 1) (gameWorldObjects w) @ [allocated w ..< allocated ?w'])"
      using step by (simp add: registryStep_def)
    have "subseq ((vs @ [?r]) @ drop (i + 1) (gameWorldObjects ?w'))
        ((vs @ [?r]) @ drop (i + 1) (gameWorldObjects w) @ [allocated w ..< allocated ?w'])"
      by (rule list_emb_append_mono [OF subseq_order.order_refl sub])
    moreover have "(vs @ [?r]) @ drop (i + 1) (gameWorldObjects w) @ [allocated w ..< allocated ?w'] =
        (vs @ drop i (gameWorldObjects w)) @ [allocated w ..< allocated ?w']"
      using True by (simp add: Cons_nth_drop_Suc)
    moreover have "subseq ((vs @ drop i (gameWorldObjects w)) @ [allocated w ..< allocated ?w'])
        ((base @ [a0 ..< allocated w]) @ [allocated w ..< allocated ?w'])"
      by (rule list_emb_append_mono [OF "1.prems"(1) subseq_order.order_refl])
    moreover have "(base @ [a0 ..< allocated w]) @ [allocated w ..< allocated ?w'] =
        base @ [a0 ..< allocated ?w']"
      using upt_split [OF "1.prems"(2) le] by simp
    ultimately have "subseq ((vs @ [?r]) @ drop (i + 1) (gameWorldObjects ?w'))
        (base @ [a0 ..< allocated ?w'])"
      by (metis subseq_order.order_trans)
    moreover have "a0 \<le> allocated ?w'" using "1.prems"(2) le by simp
    ultimately have "subseq (fst (updateLoop (i + 1) (vs @ [?r]) ?w'))
        (base @ [a0 ..< allocated (snd (updateLoop (i + 1) (vs @ [?r]) ?w'))])"
      by (rule "1.IH" [OF True])
    then show ?thesis
      using True by (subst (1 2) updateLoop_unfold) simp
  qed
qed

lemma updateLoop_length:
  "length vs = i \<Longrightarrow>
     length (gameWorldObjects (snd (updateLoop i vs w))) \<le> length (fst (updateLoop i vs w))"
proof (induction i vs w rule: updateLoop.induct)
  case (1 i vs w)
  show ?case
  proof (cases "i < length (gameWorldObjects w)")
    case False
    then show ?thesis
      using "1.prems" by (subst (1 2) updateLoop_unfold) simp
  next
    case True
    have "length (vs @ [gameWorldObjects w ! i]) = i + 1" using "1.prems" by simp
    from "1.IH" [OF True this] show ?thesis
      using True by (subst (1 2) updateLoop_unfold) simp
  qed
qed

lemma unvisited_le_removed:
  assumes "distinct xs" and "distinct ys" and "length xs \<le> length ys"
  shows "length (filter (\<lambda>x. x \<notin> set ys) xs) \<le> length (filter (\<lambda>y. y \<notin> set xs) ys)"
proof -
  have x: "length (filter (\<lambda>x. x \<in> set ys) xs) + length (filter (\<lambda>x. x \<notin> set ys) xs) = length xs"
    using sum_length_filter_compl [of "\<lambda>x. x \<in> set ys" xs] by simp
  have y: "length (filter (\<lambda>y. y \<in> set xs) ys) + length (filter (\<lambda>y. y \<notin> set xs) ys) = length ys"
    using sum_length_filter_compl [of "\<lambda>y. y \<in> set xs" ys] by simp
  have "length (filter (\<lambda>x. x \<in> set ys) xs) = card ({x. x \<in> set ys} \<inter> set xs)"
    using assms(1) by (rule distinct_length_filter)
  moreover have "length (filter (\<lambda>y. y \<in> set xs) ys) = card ({y. y \<in> set xs} \<inter> set ys)"
    using assms(2) by (rule distinct_length_filter)
  moreover have "{x. x \<in> set ys} \<inter> set xs = {y. y \<in> set xs} \<inter> set ys" by auto
  ultimately have "length (filter (\<lambda>x. x \<in> set ys) xs) = length (filter (\<lambda>y. y \<in> set xs) ys)"
    by simp
  with x y assms(3) show ?thesis by linarith
qed

lemma subseq_long: "subseq xs ys \<Longrightarrow> length ys \<le> length xs \<Longrightarrow> xs = ys"
  using list_emb_length [of "(=)" xs ys] subseq_same_length [of xs ys] by simp

lemmas tick_defs =
  update_def Ship_update_def Asteroid_update_def Bullet_update_def explode_def hitPoints_def
  addToScore_def setGameState_def isWinConditionMet_def instanceof_Bullet_def

lemma update_not_bullet:
  assumes "\<not> instanceof_Bullet (objectStore w r)"
  shows "gameWorldObjects (update r w) = gameWorldObjects w"
    and "variant (objectStore (update r w) x) = variant (objectStore w x)"
  using assms by (auto simp add: update_def instanceof_Bullet_def split: variant.split)

lemma updateLoop_no_bullets:
  assumes "list_all (\<lambda>r. \<not> instanceof_Bullet (objectStore w r)) (gameWorldObjects w)"
  shows "fst (updateLoop i vs w) = vs @ drop i (gameWorldObjects w)"
  using assms
proof (induction i vs w rule: updateLoop.induct)
  case (1 i vs w)
  show ?case
  proof (cases "i < length (gameWorldObjects w)")
    case False
    then show ?thesis by (subst updateLoop_unfold) simp
  next
    case True
    let ?r = "gameWorldObjects w ! i"
    have nb: "\<not> instanceof_Bullet (objectStore w ?r)"
      using "1.prems" True by (simp add: list_all_length)
    have "list_all (\<lambda>r. \<not> instanceof_Bullet (objectStore (update ?r w) r))
        (gameWorldObjects (update ?r w))"
      using "1.prems" instanceof_Bullet_variant [OF update_not_bullet(2) [OF nb]]
      by (simp add: update_not_bullet(1) [OF nb])
    from "1.IH" [OF True this]
    have "fst (updateLoop (i + 1) (vs @ [?r]) (update ?r w)) = (vs @ [?r]) @ drop (i + 1) (gameWorldObjects w)"
      by (simp add: update_not_bullet(1) [OF nb])
    then show ?thesis
      using True by (subst updateLoop_unfold) (simp add: Cons_nth_drop_Suc)
  qed
qed

text \<open>The bullet of a ship that points up (angle 90).\<close>

lemma Bullet_new_up:
  "Bullet_new (Vector 400 300) 90 w =
     \<lparr>variant = Bullet 11, gameWorldIndex = length (gameWorldObjects w),
      position = Vector 400 300, velocity = Vector 0 (- 11), angle = 90, radius = 3,
      geometry = [Vector 400 300], timesWarped = 0\<rparr>"
proof -
  have "- pi * 90 / 180 = - (pi / 2)" by simp
  then show ?thesis
    by (simp add: Bullet_new_def GameWorldObject_new_def Let_def Vector_def)
qed




lemma firstCollision_None:
  "(firstCollision store this rs = None) =
     (\<not> list_ex (\<lambda>r. instanceof_Asteroid (store r) \<and> collides this (store r)) rs)"
  by (induction rs) auto

lemma collides_claim_form:
  "collides this asteroid =
     (distanceApart this asteroid < 0.9 * (radius this + radius asteroid))"
proof -
  have "radius this * 0.9 + radius asteroid * 0.9 = 0.9 * (radius this + radius asteroid)"
    by (simp add: distrib_left mult.commute)
  then show ?thesis by (simp only: collides_def)
qed

lemma Ship_update_frame [simp]:
  "score (Ship_update this w) = score w"
  by (simp add: Ship_update_def Let_def setGameState_def split: option.split)

lemma Ship_update_collision:
  assumes ship: "variant (objectStore w this) = Ship s"
    and near: "list_ex (\<lambda>r. instanceof_Asteroid (objectStore w r) \<and>
        distanceApart (GameWorldObject_update (canvas w) (objectStore w this)) (objectStore w r)
          < 0.9 * (radius (objectStore w this) + radius (objectStore w r))) (gameWorldObjects w)"
  shows "gameState (Ship_update this w) = GAME_OVER_SCENE"
proof -
  define e where "e = GameWorldObject_update (canvas w) (objectStore w this)"
  define e1 where "e1 = e\<lparr>velocity := Vector (xc (velocity e) - xc (velocity e) * friction s)
                                     (yc (velocity e) - yc (velocity e) * friction s)\<rparr>"
  define w1 where "w1 = w\<lparr>objectStore := (objectStore w)(this := e1)\<rparr>"
  from near obtain r where r: "r \<in> set (gameWorldObjects w)" "instanceof_Asteroid (objectStore w r)"
    "distanceApart e (objectStore w r) < 0.9 * (radius (objectStore w this) + radius (objectStore w r))"
    by (auto simp add: list_ex_iff e_def)
  have ne: "r \<noteq> this"
    using r(2) ship by (auto simp add: instanceof_Asteroid_def)
  have st: "objectStore w1 r = objectStore w r"
    using ne by (simp add: w1_def)
  have "collides e1 (objectStore w r)"
    using r(3) by (simp add: collides_claim_form e1_def distanceApart_def e_def)
  then have "instanceof_Asteroid (objectStore w1 r) \<and> collides e1 (objectStore w1 r)"
    using r(2) st by simp
  moreover have "r \<in> set (gameWorldObjects w1)"
    using r(1) by (simp add: w1_def)
  ultimately have "list_ex (\<lambda>r. instanceof_Asteroid (objectStore w1 r) \<and> collides e1 (objectStore w1 r))
      (gameWorldObjects w1)"
    unfolding list_ex_iff by blast
  then obtain a where a: "firstCollision (objectStore w1) e1 (gameWorldObjects w1) = Some a"
    using firstCollision_None [of "objectStore w1" e1 "gameWorldObjects w1"] by auto
  have "Ship_update this w =
      (case firstCollision (objectStore w1) e1 (gameWorldObjects w1) of
           Some asteroid \<Rightarrow> setGameState GAME_OVER_SCENE w1
         | None \<Rightarrow> w1)"
    unfolding Ship_update_def Let_def w1_def e1_def e_def
    by (simp only: ship variant_GameWorldObject_update variant.case)
  with a show ?thesis by (simp add: setGameState_def)
qed




end
